theory Spec2Isabelle
  imports Main
begin

section \<open>Strings as the Python code uses them\<close>

text \<open>
  A Python \<open>str\<close> is modelled as a \<open>string\<close>: a list of 8-bit characters, read as the
  code points 0 to 255. On these \<open>str.strip()\<close> removes at both ends the characters for
  which \<open>str.isspace\<close> holds (the ASCII whitespace, the separators \<open>0x1C\<close> to \<open>0x1F\<close>, the
  next-line character \<open>0x85\<close> and the no-break space \<open>0xA0\<close>), and \<open>str.lower()\<close> maps
  \<open>A\<close>..\<open>Z\<close> and the upper-case letters \<open>0xC0\<close> to \<open>0xDE\<close> (all but the sign \<open>0xD7\<close>) to the
  letter 32 places on. \<open>str.split(sep)\<close> cuts at every separator and keeps empty pieces,
  \<open>sep.join(xs)\<close> puts the separator between consecutive pieces, and \<open>a in b\<close> on two
  strings is the contiguous-substring test.
\<close>

definition is_space :: "char \<Rightarrow> bool" where
  "is_space c = (c \<in> set [CHR '' '', CHR 0x09, CHR 0x0A, CHR 0x0B, CHR 0x0C, CHR 0x0D,
                          CHR 0x1C, CHR 0x1D, CHR 0x1E, CHR 0x1F, CHR 0x85, CHR 0xA0])"

definition str_strip :: "string \<Rightarrow> string" where
  "str_strip s = rev (dropWhile is_space (rev (dropWhile is_space s)))"

definition lower_char :: "char \<Rightarrow> char" where
  "lower_char c =
     (let n = (of_char c :: nat)
      in if (65 \<le> n \<and> n \<le> 90) \<or> (192 \<le> n \<and> n \<le> 222 \<and> n \<noteq> 215) then char_of (n + 32) else c)"

definition str_lower :: "string \<Rightarrow> string" where
  "str_lower s = map lower_char s"

fun str_split :: "char \<Rightarrow> string \<Rightarrow> string list" where
  "str_split sep [] = [[]]"
| "str_split sep (c # cs) =
     (if c = sep then [] # str_split sep cs
      else (case str_split sep cs of
              w # ws \<Rightarrow> (c # w) # ws
            | [] \<Rightarrow> [[c]]))"

fun str_join :: "string \<Rightarrow> string list \<Rightarrow> string" where
  "str_join sep [] = []"
| "str_join sep [x] = x"
| "str_join sep (x # y # ys) = x @ sep @ str_join sep (y # ys)"

fun startswith :: "string \<Rightarrow> string \<Rightarrow> bool" where
  "startswith s [] = True"
| "startswith [] (p # ps) = False"
| "startswith (c # cs) (p # ps) = (c = p \<and> startswith cs ps)"

fun str_in :: "string \<Rightarrow> string \<Rightarrow> bool" where
  "str_in needle [] = (needle = [])"
| "str_in needle (c # cs) = (startswith (c # cs) needle \<or> str_in needle cs)"

section \<open>The database models of backend/models.py\<close>

text \<open>
  \<open>Job\<close> and \<open>ScrapeLog\<close> are the two mapped classes. A timestamp is a clock reading
  (\<open>nat\<close>); the parameter \<open>now\<close> of the functions below is the value of
  \<open>datetime.utcnow()\<close>, read once per call. The primary key and \<open>created_at\<close> of a \<open>Job\<close> are assigned when the row is
  inserted, so an object that was only added to the session has neither. The column
  \<open>id\<close> is written \<open>id'\<close>. The status of a \<open>ScrapeLog\<close> is the string the code stores:
  \<open>pending\<close>, \<open>running\<close>, \<open>completed\<close> or \<open>failed\<close>.
\<close>

record Job =
  id' :: "nat option"
  job_title :: string
  company :: string
  location :: string
  salary :: string
  tags :: string
  apply_link :: string
  source :: string
  created_at :: "nat option"

record ScrapeLog =
  id' :: nat
  keyword :: string
  location :: string
  sites :: string
  jobs_found :: nat
  status :: string
  started_at :: nat
  completed_at :: "nat option"
  error_message :: "string option"

text \<open>
  The SQLAlchemy session \<open>db\<close>: the rows of the two tables as the session's transaction
  sees them, the \<open>Job\<close> objects added with \<open>db.add\<close> and not flushed yet, and the
  session's \<open>autoflush\<close> setting. The session factory is created in backend/database.py,
  so the setting is a parameter of the model. A flush inserts the pending objects in the
  order they were added; \<open>db.commit()\<close> flushes; a query flushes first when \<open>autoflush\<close>
  is on. The database calls themselves are taken not to raise.
\<close>

record Session =
  jobs :: "Job list"
  scrape_logs :: "ScrapeLog list"
  pending :: "Job list"
  autoflush :: bool

definition next_job_id :: "Job list \<Rightarrow> nat" where
  "next_job_id rows = Suc (fold max (map (\<lambda>r. case Job.id' r of Some n \<Rightarrow> n | None \<Rightarrow> 0) rows) 0)"

fun insert_rows :: "nat \<Rightarrow> Job list \<Rightarrow> Job list \<Rightarrow> Job list" where
  "insert_rows now rows [] = rows"
| "insert_rows now rows (j # js) =
     insert_rows now
       (rows @ [j\<lparr>Job.id' := Some (next_job_id rows), Job.created_at := Some now\<rparr>]) js"

definition flush :: "nat \<Rightarrow> Session \<Rightarrow> Session" where
  "flush now db = db\<lparr>jobs := insert_rows now (jobs db) (pending db), pending := []\<rparr>"

definition commit :: "nat \<Rightarrow> Session \<Rightarrow> Session" where
  "commit now db = flush now db"

definition next_log_id :: "ScrapeLog list \<Rightarrow> nat" where
  "next_log_id logs = Suc (fold max (map ScrapeLog.id' logs) 0)"

section \<open>Starting a run: start_scrape of backend/main.py\<close>

definition SCRAPERS :: "string list" where
  "SCRAPERS = [''remoteok'', ''infojobs'', ''linkedin'', ''indeed'', ''tecnoempleo'']"

datatype HTTPException = HTTPException nat string

record StartResponse =
  message :: string
  log_id :: nat
  sites :: "string list"
  keyword :: string
  location :: string

text \<open>
  \<open>site_list\<close> is the list comprehension at the head of \<open>start_scrape\<close>:
  \<^verbatim>\<open>[s.strip().lower() for s in sites.split(",") if s.strip()]\<close>.
\<close>

definition site_list :: "string \<Rightarrow> string list" where
  "site_list sites_param =
     map (\<lambda>s. str_lower (str_strip s))
       (filter (\<lambda>s. str_strip s \<noteq> []) (str_split (CHR '','') sites_param))"

text \<open>
  \<open>start_scrape\<close> returns the raised \<open>HTTPException\<close> or the response, together with
  the session afterwards. The response carries the arguments of the background task it
  schedules: \<open>run_scrape(db, log.id, site_list, keyword, location)\<close>.
\<close>

definition start_scrape ::
  "nat \<Rightarrow> Session \<Rightarrow> string \<Rightarrow> string \<Rightarrow> string \<Rightarrow> (HTTPException + StartResponse) \<times> Session" where
  "start_scrape now db sites_param kw loc =
     (let sl = site_list sites_param in
      if sl = [] then (Inl (HTTPException 400 ''No sites specified''), db)
      else
        let invalid_sites = filter (\<lambda>s. s \<notin> set SCRAPERS) sl in
        if invalid_sites \<noteq> []
        then (Inl (HTTPException 400 (''Invalid sites: '' @ str_join '', '' invalid_sites)), db)
        else
          let log = \<lparr>ScrapeLog.id' = next_log_id (scrape_logs db),
                     ScrapeLog.keyword = kw,
                     ScrapeLog.location = loc,
                     ScrapeLog.sites = str_join '','' sl,
                     ScrapeLog.jobs_found = 0,
                     ScrapeLog.status = ''pending'',
                     ScrapeLog.started_at = now,
                     ScrapeLog.completed_at = None,
                     ScrapeLog.error_message = None\<rparr>;
              db' = commit now (db\<lparr>scrape_logs := scrape_logs db @ [log]\<rparr>)
          in (Inr \<lparr>StartResponse.message = ''Scraping started'',
                   StartResponse.log_id = ScrapeLog.id' log,
                   StartResponse.sites = sl,
                   StartResponse.keyword = kw,
                   StartResponse.location = loc\<rparr>, db'))"

section \<open>The offer record of scrapers/base.py\<close>

text \<open>
  \<open>JobOffer\<close> is the dataclass every scraper returns. \<open>JobOffer_init\<close> is its
  constructor as the scrapers call it: with the six fields they extract, and \<open>source\<close>
  left at its default.
\<close>

record JobOffer =
  job_title :: string
  company :: string
  tags :: string
  apply_link :: string
  location :: string
  salary :: string
  source :: string

definition JobOffer_init ::
  "string \<Rightarrow> string \<Rightarrow> string \<Rightarrow> string \<Rightarrow> string \<Rightarrow> string \<Rightarrow> JobOffer" where
  "JobOffer_init title cmp tgs link loc sal =
     \<lparr>JobOffer.job_title = title, JobOffer.company = cmp, JobOffer.tags = tgs,
      JobOffer.apply_link = link, JobOffer.location = loc, JobOffer.salary = sal,
      JobOffer.source = ''N/A''\<rparr>"

section \<open>Executing a run: run_scrape of backend/main.py\<close>

text \<open>
  What one scraper object does during a run is given by the environment: whether its
  constructor raises, what \<open>scrape(keyword, location)\<close> returns or raises, and whether
  \<open>close()\<close> raises. An exception is represented by its message (\<open>str(e)\<close>).
  The environment of a run gives one such behaviour per position of the site list.
\<close>

record Invocation =
  init_error :: "string option"
  scrape_outcome :: "string \<Rightarrow> string \<Rightarrow> string + JobOffer list"
  close_error :: "string option"

text \<open>
  The local state of \<open>run_scrape\<close>: the session, the counter \<open>total_jobs\<close>, the list
  \<open>errors\<close>, and the states of the session at its commits so far, oldest first.
\<close>

record RunState =
  db :: Session
  total_jobs :: nat
  errors :: "string list"
  committed :: "Session list"

definition Job_of :: "JobOffer \<Rightarrow> Job" where
  "Job_of job =
     \<lparr>Job.id' = None,
      Job.job_title = JobOffer.job_title job,
      Job.company = JobOffer.company job,
      Job.location = JobOffer.location job,
      Job.salary = JobOffer.salary job,
      Job.tags = JobOffer.tags job,
      Job.apply_link = JobOffer.apply_link job,
      Job.source = JobOffer.source job,
      Job.created_at = None\<rparr>"

text \<open>The loop over the offers of one site (the duplicate check by \<open>apply_link\<close>).\<close>

fun store_jobs :: "nat \<Rightarrow> JobOffer list \<Rightarrow> Session \<times> nat \<Rightarrow> Session \<times> nat" where
  "store_jobs now [] (s, tot) = (s, tot)"
| "store_jobs now (job # rest) (s, tot) =
     (let s1 = (if autoflush s then flush now s else s);
          existing = find (\<lambda>r. Job.apply_link r = JobOffer.apply_link job) (jobs s1)
      in case existing of
           Some r \<Rightarrow> store_jobs now rest (s1, tot)
         | None \<Rightarrow> store_jobs now rest (s1\<lparr>pending := pending s1 @ [Job_of job]\<rparr>, Suc tot))"

text \<open>
  The inner \<open>try\<close> block for one site: \<open>scrape\<close> raises and the message is appended
  to \<open>errors\<close>, or its offers are stored and the session is committed.
\<close>

definition try_site :: "nat \<Rightarrow> Invocation \<Rightarrow> string \<Rightarrow> string \<Rightarrow> string \<Rightarrow> RunState \<Rightarrow> RunState" where
  "try_site now scraper kw loc site_name st =
     (case scrape_outcome scraper kw loc of
        Inl e \<Rightarrow> st\<lparr>errors := errors st @ [site_name @ '': '' @ e]\<rparr>
      | Inr found \<Rightarrow>
          (case store_jobs now found (db st, total_jobs st) of
             (s1, tot) \<Rightarrow>
               let s2 = commit now s1
               in st\<lparr>db := s2, total_jobs := tot, committed := committed st @ [s2]\<rparr>))"

text \<open>
  The loop over the sites. The result is the exception that left the loop, if any (one
  raised outside the inner \<open>try\<close>: by a constructor or by \<open>close()\<close>), and the state.
\<close>

fun scrape_sites ::
  "nat \<Rightarrow> (nat \<Rightarrow> Invocation) \<Rightarrow> string \<Rightarrow> string \<Rightarrow> nat \<Rightarrow> string list \<Rightarrow> RunState
     \<Rightarrow> string option \<times> RunState" where
  "scrape_sites now world kw loc i [] st = (None, st)"
| "scrape_sites now world kw loc i (site_name # rest) st =
     (if site_name \<notin> set SCRAPERS
      then scrape_sites now world kw loc (Suc i) rest
             (st\<lparr>errors := errors st @ [''Unknown site: '' @ site_name]\<rparr>)
      else
        case init_error (world i) of
          Some e \<Rightarrow> (Some e, st)
        | None \<Rightarrow>
            let st1 = try_site now (world i) kw loc site_name st
            in case close_error (world i) of
                 Some e \<Rightarrow> (Some e, st1)
               | None \<Rightarrow> scrape_sites now world kw loc (Suc i) rest st1)"

definition find_log :: "Session \<Rightarrow> nat \<Rightarrow> ScrapeLog option" where
  "find_log s lid = find (\<lambda>l. ScrapeLog.id' l = lid) (scrape_logs s)"

fun update_first :: "('a \<Rightarrow> bool) \<Rightarrow> ('a \<Rightarrow> 'a) \<Rightarrow> 'a list \<Rightarrow> 'a list" where
  "update_first P f [] = []"
| "update_first P f (x # xs) = (if P x then f x # xs else x # update_first P f xs)"

definition update_log :: "nat \<Rightarrow> (ScrapeLog \<Rightarrow> ScrapeLog) \<Rightarrow> Session \<Rightarrow> Session" where
  "update_log lid f s =
     s\<lparr>scrape_logs := update_first (\<lambda>l. ScrapeLog.id' l = lid) f (scrape_logs s)\<rparr>"

text \<open>
  \<open>run_scrape\<close> returns the states of the session at its commits, oldest first (none
  when the log row does not exist); the session it leaves behind is the last of them.
\<close>

definition run_scrape ::
  "nat \<Rightarrow> (nat \<Rightarrow> Invocation) \<Rightarrow> Session \<Rightarrow> nat \<Rightarrow> string list \<Rightarrow> string \<Rightarrow> string
     \<Rightarrow> Session list" where
  "run_scrape now world s lid site_names kw loc =
     (case find_log s lid of
        None \<Rightarrow> []
      | Some log \<Rightarrow>
          let s1 = commit now (update_log lid (\<lambda>l. l\<lparr>ScrapeLog.status := ''running''\<rparr>) s)
          in case scrape_sites now world kw loc 0 site_names
                    \<lparr>db = s1, total_jobs = 0, errors = [], committed = [s1]\<rparr> of
               (None, st) \<Rightarrow>
                 committed st @
                 [commit now
                    (update_log lid
                       (\<lambda>l. l\<lparr>ScrapeLog.status := ''completed'',
                               ScrapeLog.jobs_found := total_jobs st,
                               ScrapeLog.completed_at := Some now,
                               ScrapeLog.error_message :=
                                 (if errors st \<noteq> [] then Some (str_join ''; '' (errors st))
                                  else ScrapeLog.error_message l)\<rparr>)
                       (db st))]
             | (Some e, st) \<Rightarrow>
                 committed st @
                 [commit now
                    (update_log lid
                       (\<lambda>l. l\<lparr>ScrapeLog.status := ''failed'',
                               ScrapeLog.error_message := Some e,
                               ScrapeLog.completed_at := Some now\<rparr>)
                       (db st))])"

definition final_session :: "Session \<Rightarrow> Session list \<Rightarrow> Session" where
  "final_session s cs = (if cs = [] then s else last cs)"

section \<open>Tag statistics: get_stats of backend/main.py\<close>

text \<open>
  \<open>tag_counts\<close> is a Python dict, which keeps its keys in the order they were first
  inserted: an association list, where counting a key that is present updates it in
  place and a new key goes to the end. \<open>all_tags\<close> is the column \<open>tags\<close> of the stored
  rows, in the order the query returns them.
\<close>

fun count_tag :: "string \<Rightarrow> (string \<times> nat) list \<Rightarrow> (string \<times> nat) list" where
  "count_tag t [] = [(t, 1)]"
| "count_tag t ((k, n) # kvs) = (if k = t then (k, n + 1) # kvs else (k, n) # count_tag t kvs)"

definition count_row :: "string \<Rightarrow> (string \<times> nat) list \<Rightarrow> (string \<times> nat) list" where
  "count_row tgs tc =
     (if tgs \<noteq> []
      then fold (\<lambda>seg acc. let tag = str_strip seg in if tag \<noteq> [] then count_tag tag acc else acc)
             (str_split (CHR '','') tgs) tc
      else tc)"

definition tag_counts :: "string list \<Rightarrow> (string \<times> nat) list" where
  "tag_counts all_tags = fold count_row all_tags []"

text \<open>
  \<open>sorted(items, key=lambda x: x[1], reverse=True)\<close> is Python's stable sort by
  descending count: items with equal counts keep the order they had. \<open>sort_key\<close> is
  a stable insertion sort, here on the negated count.
\<close>

definition top_tags :: "string list \<Rightarrow> (string \<times> nat) list" where
  "top_tags all_tags = take 15 (sort_key (\<lambda>kv. - int (snd kv)) (tag_counts all_tags))"

text \<open>The tags of the rows as the aggregation reads them: split, trimmed, empty ones dropped.\<close>

definition tag_tokens :: "string list \<Rightarrow> string list" where
  "tag_tokens all_tags =
     concat (map (\<lambda>tgs. filter (\<lambda>t. t \<noteq> []) (map str_strip (str_split (CHR '','') tgs))) all_tags)"

section \<open>The API-backed scraper: scrapers/remoteok.py\<close>

text \<open>
  A feed entry is a decoded JSON object; the record holds the keys the scraper reads,
  each absent (\<open>None\<close>) or present with a value of the type the feed gives it. The
  salary bounds are integers.
\<close>

record FeedItem =
  legal :: "string option"
  position :: "string option"
  company :: "string option"
  tags :: "string list option"
  slug :: "string option"
  url :: "string option"
  salary_min :: "int option"
  salary_max :: "int option"
  location :: "string option"

text \<open>The format specification \<open>{n:,}\<close>: decimal digits in groups of three.\<close>

fun digits :: "nat \<Rightarrow> string" where
  "digits n =
     (if n < 10 then [''0123456789'' ! n] else digits (n div 10) @ [''0123456789'' ! (n mod 10)])"

fun group3 :: "string \<Rightarrow> string" where
  "group3 (a # b # c # d # rest) = a # b # c # CHR '','' # group3 (d # rest)"
| "group3 ds = ds"

definition format_thousands :: "int \<Rightarrow> string" where
  "format_thousands n =
     (if n < 0 then ''-'' else []) @ rev (group3 (rev (digits (nat \<bar>n\<bar>))))"

text \<open>Truth value of \<open>item.get("salary_min")\<close>: absent, null and 0 are false.\<close>

definition truthy :: "int option \<Rightarrow> bool" where
  "truthy v = (case v of None \<Rightarrow> False | Some n \<Rightarrow> n \<noteq> 0)"

definition extract_job :: "string \<Rightarrow> FeedItem \<Rightarrow> JobOffer option" where
  "extract_job base item =
     (let title = (case FeedItem.position item of None \<Rightarrow> [] | Some p \<Rightarrow> p) in
      if title = [] then None
      else
        let cmp = (case FeedItem.company item of None \<Rightarrow> ''N/A'' | Some c \<Rightarrow> c);
            tags_list = (case FeedItem.tags item of None \<Rightarrow> [] | Some ts \<Rightarrow> ts);
            tgs = (if tags_list \<noteq> [] then str_join '', '' tags_list else ''N/A'');
            slg = (case FeedItem.slug item of None \<Rightarrow> [] | Some sl \<Rightarrow> sl);
            link = (if slg \<noteq> [] then base @ ''/'' @ slg
                    else (case FeedItem.url item of None \<Rightarrow> ''N/A'' | Some u \<Rightarrow> u));
            smin = FeedItem.salary_min item;
            smax = FeedItem.salary_max item;
            sal = (if truthy smin \<and> truthy smax
                   then ''$'' @ format_thousands (the smin) @ '' - $'' @ format_thousands (the smax)
                   else if truthy smin then ''$'' @ format_thousands (the smin) @ ''+''
                   else ''N/A'');
            loc = (case FeedItem.location item of
                     None \<Rightarrow> ''Remote''
                   | Some l \<Rightarrow> if l = [] then ''Remote'' else l)
        in Some (JobOffer_init title cmp tgs link loc sal))"

text \<open>The loop of \<open>_parse_api_response\<close>, with the list \<open>jobs\<close> it appends to.\<close>

fun parse_items :: "string \<Rightarrow> string \<Rightarrow> FeedItem list \<Rightarrow> JobOffer list \<Rightarrow> JobOffer list" where
  "parse_items base keyword_lower [] found = found"
| "parse_items base keyword_lower (item # rest) found =
     (if FeedItem.legal item \<noteq> None then parse_items base keyword_lower rest found
      else
        case extract_job base item of
          None \<Rightarrow> parse_items base keyword_lower rest found
        | Some job \<Rightarrow>
            if keyword_lower \<noteq> [] \<and>
               \<not> str_in keyword_lower
                   (str_lower (JobOffer.job_title job @ '' '' @ JobOffer.company job @ '' '' @
                               JobOffer.tags job))
            then parse_items base keyword_lower rest found
            else parse_items base keyword_lower rest (found @ [job]))"

definition parse_api_response :: "string \<Rightarrow> FeedItem list \<Rightarrow> string \<Rightarrow> JobOffer list" where
  "parse_api_response base data kw =
     (let keyword_lower = (if kw \<noteq> [] then str_lower kw else [])
      in take 50 (parse_items base keyword_lower data []))"

text \<open>
  The keyword filter in the specification's words: no keyword, or the keyword occurs,
  case-insensitively, in the title, company and tags put together.
\<close>

definition keyword_matches :: "string \<Rightarrow> JobOffer \<Rightarrow> bool" where
  "keyword_matches kw job =
     (kw = [] \<or>
      str_in (str_lower kw)
        (str_lower (JobOffer.job_title job @ '' '' @ JobOffer.company job @ '' '' @
                    JobOffer.tags job)))"

section \<open>Site configuration and the whole-adapter run\<close>






section \<open>The markup scrapers: candidate cards\<close>

text \<open>
  The parsed page is an external capability: it answers \<open>find_all(tag, class_=c)\<close> and
  \<open>select(css)\<close> with the matching nodes in document order. The per-card extraction
  \<open>_extract_job\<close> is a parameter: a card gives an offer or nothing.
\<close>

record 'n Soup =
  find_all :: "string \<Rightarrow> string \<Rightarrow> 'n list"
  select :: "string \<Rightarrow> 'n list"

definition linkedin_parse_job_listings :: "'n Soup \<Rightarrow> ('n \<Rightarrow> JobOffer option) \<Rightarrow> JobOffer list" where
  "linkedin_parse_job_listings soup extract =
     (let job_cards = find_all soup ''div'' ''base-card'';
          job_cards = (if job_cards = []
                       then find_all soup ''li'' ''jobs-search-results__list-item''
                       else job_cards);
          job_cards = (if job_cards = [] then select soup ''[data-job-id]'' else job_cards)
      in List.map_filter extract job_cards)"

definition indeed_parse_job_listings :: "'n Soup \<Rightarrow> ('n \<Rightarrow> JobOffer option) \<Rightarrow> JobOffer list" where
  "indeed_parse_job_listings soup extract =
     (let job_cards = find_all soup ''div'' ''job_seen_beacon'';
          job_cards = (if job_cards = []
                       then find_all soup ''div'' ''jobsearch-SerpJobCard''
                       else job_cards);
          job_cards = (if job_cards = [] then select soup ''[data-jk]'' else job_cards);
          job_cards = (if job_cards = [] then find_all soup ''td'' ''resultContent'' else job_cards)
      in List.map_filter extract job_cards)"

definition infojobs_parse_job_listings :: "'n Soup \<Rightarrow> ('n \<Rightarrow> JobOffer option) \<Rightarrow> JobOffer list" where
  "infojobs_parse_job_listings soup extract =
     (let job_cards = find_all soup ''div'' ''ij-OfferCardContent'';
          job_cards = (if job_cards = [] then find_all soup ''li'' ''ij-OfferCard'' else job_cards);
          job_cards = (if job_cards = []
                       then select soup (''[data-testid='' @ [CHR 0x27] @ ''offer-card'' @ [CHR 0x27] @ '']'')
                       else job_cards)
      in List.map_filter extract job_cards)"

text \<open>
  The fallback chain in the specification's words: the candidate lists in order, the
  first one that is not empty.
\<close>

fun first_nonempty :: "'a list list \<Rightarrow> 'a list" where
  "first_nonempty [] = []"
| "first_nonempty (xs # rest) = (if xs \<noteq> [] then xs else first_nonempty rest)"

section \<open>The markup scrapers: the extraction of one offer\<close>




















section \<open>The five scrapers as run\<close>









section \<open>The command-line coordinator: run_scrapers of jobfy_scraper.py\<close>





section \<open>Auxiliary notions for the statements\<close>

text \<open>
  A segment of the \<open>sites\<close> parameter written as padding, a name, padding: the padding
  is whitespace, the name is empty or a known scraper name in any mix of cases.
\<close>

definition well_padded :: "string \<times> string \<times> string \<Rightarrow> bool" where
  "well_padded seg = (case seg of (l, nm, r) \<Rightarrow>
     list_all is_space l \<and> list_all is_space r \<and> (nm = [] \<or> str_lower nm \<in> set SCRAPERS))"

definition terminal :: "string \<Rightarrow> bool" where
  "terminal st = (st = ''completed'' \<or> st = ''failed'')"

text \<open>The distinct elements of a list in the order of their first occurrence.\<close>

fun first_seen :: "'a list \<Rightarrow> 'a list" where
  "first_seen [] = []"
| "first_seen (x # xs) = x # filter (\<lambda>y. y \<noteq> x) (first_seen xs)"

text \<open>The count an association list holds for a key, 0 when the key is absent.\<close>

definition cnt :: "(string \<times> nat) list \<Rightarrow> string \<Rightarrow> nat" where
  "cnt kvs t = (case map_of kvs t of None \<Rightarrow> 0 | Some c \<Rightarrow> c)"

text \<open>
  Notions for the statements about a run. \<open>source_errors\<close> lists the entries the loop
  over the sites appends to \<open>errors\<close>: one for every site that is unknown or whose
  \<open>scrape\<close> raises. \<open>log_history\<close> is the \<open>ScrapeLog\<close> row with a given id as a
  sequence of session states shows it.
\<close>

fun source_errors :: "(nat \<Rightarrow> Invocation) \<Rightarrow> string \<Rightarrow> string \<Rightarrow> nat \<Rightarrow> string list \<Rightarrow> string list" where
  "source_errors world kw loc i [] = []"
| "source_errors world kw loc i (site_name # rest) =
     (if site_name \<notin> set SCRAPERS
      then (''Unknown site: '' @ site_name) # source_errors world kw loc (Suc i) rest
      else case scrape_outcome (world i) kw loc of
             Inl e \<Rightarrow> (site_name @ '': '' @ e) # source_errors world kw loc (Suc i) rest
           | Inr found \<Rightarrow> source_errors world kw loc (Suc i) rest)"

definition log_history :: "nat \<Rightarrow> Session list \<Rightarrow> ScrapeLog list" where
  "log_history lid states = List.map_filter (\<lambda>d. find_log d lid) states"

definition stored_links :: "Session \<Rightarrow> string list" where
  "stored_links s = map Job.apply_link (jobs s)"

definition all_links :: "Session \<Rightarrow> string list" where
  "all_links s = map Job.apply_link (jobs s @ pending s)"

text \<open>
  How the table of offers and the counter may change during a run: the autoflush
  setting stays, stored rows stay in place, every new link was not among the stored
  links and is counted once, and with autoflush on no link is doubled.
\<close>

definition grows :: "Session \<Rightarrow> nat \<Rightarrow> Session \<Rightarrow> nat \<Rightarrow> bool" where
  "grows s n s' n' =
     (autoflush s' = autoflush s \<and>
      (\<exists>ext. jobs s' = jobs s @ ext) \<and>
      (\<exists>nl. all_links s' = all_links s @ nl \<and> n' = n + length nl \<and>
            set nl \<inter> set (stored_links s) = {}) \<and>
      (autoflush s \<and> distinct (all_links s) \<longrightarrow> distinct (all_links s')))"








section \<open>Sample feed entries\<close>

text \<open>
  A feed as the API returns it: the metadata entry with the key \<open>legal\<close>, then offers.
  One offer has both salary bounds, one only the lower, one only the upper bound.
\<close>

definition feed_meta :: FeedItem where
  "feed_meta = \<lparr>legal = Some ''API terms of use'', position = None, company = None, tags = None,
     slug = None, url = None, salary_min = None, salary_max = None, location = None\<rparr>"

definition feed_backend :: FeedItem where
  "feed_backend = \<lparr>legal = None, position = Some ''Backend Developer'', company = Some ''Acme'',
     tags = Some [''python'', ''django''], slug = Some ''backend-1'', url = None,
     salary_min = Some 50000, salary_max = Some 70000, location = None\<rparr>"

definition feed_systems :: FeedItem where
  "feed_systems = \<lparr>legal = None, position = Some ''Systems Engineer'', company = Some ''Initech'',
     tags = Some [''rust''], slug = None, url = Some ''https://initech.example/jobs/7'',
     salary_min = Some 60000, salary_max = None, location = Some ''Berlin''\<rparr>"

definition feed_designer :: FeedItem where
  "feed_designer = \<lparr>legal = None, position = Some ''Designer'', company = None,
     tags = None, slug = Some ''designer-3'', url = None,
     salary_min = None, salary_max = Some 100000, location = Some ''''\<rparr>"

section \<open>A sample store and sample scraper behaviours\<close>

text \<open>
  A store with one offer and a run record that is still pending. In \<open>sample_world\<close>
  the first scraper returns three offers: one whose link is stored already and two
  that share a new link; every later scraper raises. In \<open>failing_world\<close> every scraper
  raises.
\<close>

definition stored_session :: Session where
  "stored_session =
     \<lparr>jobs = [\<lparr>Job.id' = Some 1, Job.job_title = ''Backend Developer'', Job.company = ''Acme'',
                Job.location = ''Remote'', Job.salary = ''N/A'', Job.tags = ''python'',
                Job.apply_link = ''https://remoteok.com/backend-1'', Job.source = ''RemoteOK'',
                Job.created_at = Some 3\<rparr>],
      scrape_logs = [\<lparr>ScrapeLog.id' = 1, ScrapeLog.keyword = ''python'', ScrapeLog.location = [],
                       ScrapeLog.sites = ''remoteok,indeed'', ScrapeLog.jobs_found = 0,
                       ScrapeLog.status = ''pending'', ScrapeLog.started_at = 7,
                       ScrapeLog.completed_at = None, ScrapeLog.error_message = None\<rparr>],
      pending = [], autoflush = True\<rparr>"


definition sample_offers :: "JobOffer list" where
  "sample_offers =
     [(JobOffer_init ''Backend Developer'' ''Acme'' ''python'' ''https://remoteok.com/backend-1''
         ''Remote'' ''N/A'')\<lparr>JobOffer.source := ''RemoteOK''\<rparr>,
      (JobOffer_init ''Systems Engineer'' ''Initech'' ''rust'' ''https://remoteok.com/systems-7''
         ''Remote'' ''N/A'')\<lparr>JobOffer.source := ''RemoteOK''\<rparr>,
      (JobOffer_init ''Systems Engineer (m/f)'' ''Initech'' ''rust'' ''https://remoteok.com/systems-7''
         ''Remote'' ''N/A'')\<lparr>JobOffer.source := ''RemoteOK''\<rparr>]"

definition sample_world :: "nat \<Rightarrow> Invocation" where
  "sample_world i =
     \<lparr>init_error = None,
      scrape_outcome = (\<lambda>kw loc. if i = 0 then Inr sample_offers else Inl ''HTTP 403''),
      close_error = None\<rparr>"

definition failing_world :: "nat \<Rightarrow> Invocation" where
  "failing_world i =
     \<lparr>init_error = None, scrape_outcome = (\<lambda>kw loc. Inl ''timeout''), close_error = None\<rparr>"



section \<open>Facts about the string functions\<close>

lemma str_split_no_sep: "sep \<notin> set s \<Longrightarrow> str_split sep s = [s]"
  by (induction s) auto

lemma str_split_append: "sep \<notin> set s \<Longrightarrow> str_split sep (s @ sep # t) = s # str_split sep t"
  by (induction s) auto

lemma str_split_join:
  "segs \<noteq> [] \<Longrightarrow> \<forall>s\<in>set segs. sep \<notin> set s \<Longrightarrow> str_split sep (str_join [sep] segs) = segs"
proof (induction "[sep]" segs rule: str_join.induct)
  case 1
  then show ?case by simp
next
  case (2 x)
  then show ?case by (simp add: str_split_no_sep)
next
  case (3 x y ys)
  then show ?case by (simp add: str_split_append)
qed

lemma dropWhile_pad: "list_all P l \<Longrightarrow> dropWhile P (l @ xs) = dropWhile P xs"
  by (induction l) auto

lemma dropWhile_all: "list_all P xs \<Longrightarrow> dropWhile P xs = []"
  by (induction xs) auto

lemma dropWhile_keep: "xs \<noteq> [] \<Longrightarrow> \<not> P (hd xs) \<Longrightarrow> dropWhile P xs = xs"
  by (cases xs) auto

lemma str_strip_pad:
  assumes l: "list_all is_space l" and r: "list_all is_space r"
    and n: "nm = [] \<or> (\<not> is_space (hd nm) \<and> \<not> is_space (last nm))"
  shows "str_strip (l @ nm @ r) = nm"
proof (cases "nm = []")
  case True
  have "dropWhile is_space (l @ r) = dropWhile is_space r"
    by (rule dropWhile_pad [OF l])
  also have "\<dots> = []" by (rule dropWhile_all [OF r])
  finally have e: "dropWhile is_space (l @ nm @ r) = []" using True by simp
  show ?thesis unfolding str_strip_def e using True by simp
next
  case False
  with n have h: "\<not> is_space (hd nm)" and t: "\<not> is_space (last nm)" by auto
  have 1: "dropWhile is_space (l @ nm @ r) = nm @ r"
    using l h False by (simp add: dropWhile_pad dropWhile_keep)
  have rr: "list_all is_space (rev r)" using r by (simp add: list_all_iff)
  have "hd (rev nm) = last nm" using False by (simp add: hd_rev)
  with t False have 2: "dropWhile is_space (rev nm) = rev nm"
    by (simp add: dropWhile_keep)
  have "dropWhile is_space (rev (nm @ r)) = rev nm"
    using rr 2 by (simp add: dropWhile_pad)
  then show ?thesis unfolding str_strip_def 1 by simp
qed

lemma lower_char_letter:
  "lower_char c \<in> set ''abcdefghijklmnopqrstuvwxyz'' \<Longrightarrow> \<not> is_space c \<and> c \<noteq> CHR '',''"
  unfolding lower_char_def Let_def is_space_def
  by (auto split: if_splits)

lemma scraper_name_chars:
  assumes "str_lower nm \<in> set SCRAPERS" and "c \<in> set nm"
  shows "\<not> is_space c \<and> c \<noteq> CHR '',''"
proof -
  have "set (str_lower nm) \<subseteq> set ''abcdefghijklmnopqrstuvwxyz''"
    using assms(1) unfolding SCRAPERS_def by auto
  moreover have "lower_char c \<in> set (str_lower nm)"
    using assms(2) by (simp add: str_lower_def)
  ultimately have "lower_char c \<in> set ''abcdefghijklmnopqrstuvwxyz''" by blast
  then show ?thesis by (rule lower_char_letter)
qed

lemma is_space_not_comma: "is_space c \<Longrightarrow> c \<noteq> CHR '',''"
  by (auto simp: is_space_def)

lemma padded_segment:
  assumes "list_all is_space l" and "list_all is_space r"
    and "nm = [] \<or> str_lower nm \<in> set SCRAPERS"
  shows "str_strip (l @ nm @ r) = nm \<and> CHR '','' \<notin> set (l @ nm @ r)"
proof -
  have n: "nm = [] \<or> (\<not> is_space (hd nm) \<and> \<not> is_space (last nm))"
  proof (cases "nm = []")
    case True
    then show ?thesis by simp
  next
    case False
    with assms(3) have k: "str_lower nm \<in> set SCRAPERS" by simp
    from False have "hd nm \<in> set nm" and "last nm \<in> set nm" by simp_all
    with k show ?thesis by (blast dest: scraper_name_chars)
  qed
  have "CHR '','' \<notin> set l" and "CHR '','' \<notin> set r"
    using assms(1,2) by (auto simp: list_all_iff dest: is_space_not_comma)
  moreover have "CHR '','' \<notin> set nm"
    using assms(3) by (auto dest: scraper_name_chars)
  ultimately show ?thesis using str_strip_pad [OF assms(1,2) n] by simp
qed

lemma site_list_padded:
  assumes ne: "segs \<noteq> []" and ok: "list_all well_padded segs"
  shows "site_list (str_join '','' (map (\<lambda>(l, nm, r). l @ nm @ r) segs))
           = map str_lower (filter (\<lambda>n. n \<noteq> []) (map (\<lambda>(l, nm, r). nm) segs))"
proof -
  let ?raw = "map (\<lambda>(l, nm, r). l @ nm @ r) segs"
  have seg: "\<And>l nm r. (l, nm, r) \<in> set segs \<Longrightarrow>
      str_strip (l @ nm @ r) = nm \<and> CHR '','' \<notin> set (l @ nm @ r)"
    using ok by (intro padded_segment) (auto simp: list_all_iff well_padded_def)
  have "\<forall>s\<in>set ?raw. CHR '','' \<notin> set s" using seg by fastforce
  moreover have "?raw \<noteq> []" using ne by simp
  ultimately have sp: "str_split (CHR '','') (str_join [CHR '',''] ?raw) = ?raw"
    by (rule str_split_join [rotated])
  have st: "map str_strip ?raw = map (\<lambda>(l, nm, r). nm) segs"
    using seg by auto
  have "site_list (str_join '','' ?raw)
      = map str_lower (filter (\<lambda>n. n \<noteq> []) (map str_strip ?raw))"
    unfolding site_list_def sp by (simp add: filter_map comp_def)
  then show ?thesis unfolding st .
qed

section \<open>Validation of the run request\<close>

text \<open>
  Claim C3. When the normalised site list of a request is empty, or contains a name
  that is not a key of \<open>SCRAPERS\<close>, \<open>start_scrape\<close> raises an \<open>HTTPException\<close> with
  status 400 and leaves the session as it was: no \<open>ScrapeLog\<close> row is created.
\<close>

theorem start_scrape_rejects:
  assumes "site_list sites_param = [] \<or> (\<exists>s\<in>set (site_list sites_param). s \<notin> set SCRAPERS)"
  shows "\<exists>detail. start_scrape now s sites_param kw loc = (Inl (HTTPException 400 detail), s)"
proof (cases "site_list sites_param = []")
  case True
  then show ?thesis by (simp add: start_scrape_def)
next
  case False
  with assms have "filter (\<lambda>s. s \<notin> set SCRAPERS) (site_list sites_param) \<noteq> []"
    by (auto simp: filter_empty_conv)
  with False show ?thesis by (simp add: start_scrape_def Let_def)
qed

theorem start_scrape_rejects_witness:
  "(\<exists>detail. start_scrape 7 \<lparr>jobs = [], scrape_logs = [], pending = [], autoflush = True\<rparr>
        ''remoteok, monster'' ''python'' ''Madrid''
      = (Inl (HTTPException 400 detail), \<lparr>jobs = [], scrape_logs = [], pending = [], autoflush = True\<rparr>))
   \<and> (\<exists>detail. start_scrape 7 \<lparr>jobs = [], scrape_logs = [], pending = [], autoflush = True\<rparr>
        '' , ,'' ''python'' ''Madrid''
      = (Inl (HTTPException 400 detail), \<lparr>jobs = [], scrape_logs = [], pending = [], autoflush = True\<rparr>))"
proof
  have "site_list ''remoteok, monster'' = []
      \<or> (\<exists>s\<in>set (site_list ''remoteok, monster''). s \<notin> set SCRAPERS)"
    by code_simp
  then show "\<exists>detail. start_scrape 7 \<lparr>jobs = [], scrape_logs = [], pending = [], autoflush = True\<rparr>
        ''remoteok, monster'' ''python'' ''Madrid''
      = (Inl (HTTPException 400 detail), \<lparr>jobs = [], scrape_logs = [], pending = [], autoflush = True\<rparr>)"
    by (rule start_scrape_rejects)
  have "site_list '' , ,'' = [] \<or> (\<exists>s\<in>set (site_list '' , ,''). s \<notin> set SCRAPERS)"
    by code_simp
  then show "\<exists>detail. start_scrape 7 \<lparr>jobs = [], scrape_logs = [], pending = [], autoflush = True\<rparr>
        '' , ,'' ''python'' ''Madrid''
      = (Inl (HTTPException 400 detail), \<lparr>jobs = [], scrape_logs = [], pending = [], autoflush = True\<rparr>)"
    by (rule start_scrape_rejects)
qed

text \<open>
  Claim C10. The \<open>sites\<close> parameter is normalised before it is validated. Written as
  comma-separated segments, each a name between whitespace padding, where a name is
  empty or a key of \<open>SCRAPERS\<close> in any mix of upper and lower case: the site list is
  the lower-cased non-empty names in order, and when there is at least one the request
  is accepted with that list. Padding, empty segments and the case of the letters
  never cause a rejection.
\<close>

theorem start_scrape_normalizes_sites:
  assumes ne: "segs \<noteq> []" and ok: "list_all well_padded segs"
  shows "site_list (str_join '','' (map (\<lambda>(l, nm, r). l @ nm @ r) segs))
           = map str_lower (filter (\<lambda>n. n \<noteq> []) (map (\<lambda>(l, nm, r). nm) segs))
       \<and> (filter (\<lambda>n. n \<noteq> []) (map (\<lambda>(l, nm, r). nm) segs) \<noteq> [] \<longrightarrow>
           (\<exists>resp s'. start_scrape now s
                 (str_join '','' (map (\<lambda>(l, nm, r). l @ nm @ r) segs)) kw loc = (Inr resp, s')
              \<and> StartResponse.sites resp
                   = map str_lower (filter (\<lambda>n. n \<noteq> []) (map (\<lambda>(l, nm, r). nm) segs))))"
proof -
  let ?names = "filter (\<lambda>n. n \<noteq> []) (map (\<lambda>(l, nm, r). nm) segs)"
  let ?param = "str_join '','' (map (\<lambda>(l, nm, r). l @ nm @ r) segs)"
  have sl: "site_list ?param = map str_lower ?names"
    by (rule site_list_padded [OF ne ok])
  have known: "\<forall>n\<in>set ?names. str_lower n \<in> set SCRAPERS"
    using ok by (auto simp: list_all_iff well_padded_def)
  then have inv: "filter (\<lambda>s. s \<notin> set SCRAPERS) (map str_lower ?names) = []"
    by (auto simp: filter_empty_conv)
  have "?names \<noteq> [] \<Longrightarrow> \<exists>resp s'. start_scrape now s ?param kw loc = (Inr resp, s')
      \<and> StartResponse.sites resp = map str_lower ?names"
    unfolding start_scrape_def sl Let_def inv by simp
  with sl show ?thesis by blast
qed

theorem start_scrape_normalizes_sites_witness:
  "site_list '' RemoteOK ,, InDeed,'' = [''remoteok'', ''indeed'']
   \<and> (\<exists>resp s'. start_scrape 7 \<lparr>jobs = [], scrape_logs = [], pending = [], autoflush = True\<rparr>
           '' RemoteOK ,, InDeed,'' ''python'' ''Madrid'' = (Inr resp, s')
        \<and> StartResponse.sites resp = [''remoteok'', ''indeed''])"
proof -
  let ?segs = "[('' '', ''RemoteOK'', '' ''), ('''', '''', ''''), ('' '', ''InDeed'', ''''), ('''', '''', '''')]"
  have ne: "?segs \<noteq> []" by simp
  have ok: "list_all well_padded ?segs" by code_simp
  have p: "str_join '','' (map (\<lambda>(l, nm, r). l @ nm @ r) ?segs) = '' RemoteOK ,, InDeed,''"
    by simp
  have n: "map str_lower (filter (\<lambda>n. n \<noteq> []) (map (\<lambda>(l, nm, r). nm) ?segs))
             = [''remoteok'', ''indeed'']"
    by code_simp
  have m: "filter (\<lambda>n. n \<noteq> []) (map (\<lambda>(l, nm, r). nm) ?segs) \<noteq> []" by simp
  from start_scrape_normalizes_sites [OF ne ok, of 7
      "\<lparr>jobs = [], scrape_logs = [], pending = [], autoflush = True\<rparr>" "''python''" "''Madrid''"]
  show ?thesis unfolding p n using m by blast
qed

section \<open>The markup scrapers: the fallback chain of selectors\<close>

text \<open>
  Claim C6. Each markup scraper with a selector chain (LinkedIn, Indeed, InfoJobs) runs
  the per-card extraction over exactly the cards of the first selector of its chain
  that matches at least one node; what later selectors would match plays no part. In
  particular, when the first selector matches nothing and the second matches two
  nodes, those two nodes are processed.
\<close>

theorem fallback_chain_first_nonempty:
  "linkedin_parse_job_listings soup ex =
     List.map_filter ex (first_nonempty
       [find_all soup ''div'' ''base-card'',
        find_all soup ''li'' ''jobs-search-results__list-item'',
        select soup ''[data-job-id]''])
   \<and> indeed_parse_job_listings soup ex =
     List.map_filter ex (first_nonempty
       [find_all soup ''div'' ''job_seen_beacon'',
        find_all soup ''div'' ''jobsearch-SerpJobCard'',
        select soup ''[data-jk]'',
        find_all soup ''td'' ''resultContent''])
   \<and> infojobs_parse_job_listings soup ex =
     List.map_filter ex (first_nonempty
       [find_all soup ''div'' ''ij-OfferCardContent'',
        find_all soup ''li'' ''ij-OfferCard'',
        select soup (''[data-testid='' @ [CHR 0x27] @ ''offer-card'' @ [CHR 0x27] @ '']'')])
   \<and> (find_all soup ''div'' ''base-card'' = [] \<and>
        find_all soup ''li'' ''jobs-search-results__list-item'' = [a, b]
        \<longrightarrow> linkedin_parse_job_listings soup ex = List.map_filter ex [a, b])
   \<and> (find_all soup ''div'' ''job_seen_beacon'' = [] \<and>
        find_all soup ''div'' ''jobsearch-SerpJobCard'' = [a, b]
        \<longrightarrow> indeed_parse_job_listings soup ex = List.map_filter ex [a, b])
   \<and> (find_all soup ''div'' ''ij-OfferCardContent'' = [] \<and>
        find_all soup ''li'' ''ij-OfferCard'' = [a, b]
        \<longrightarrow> infojobs_parse_job_listings soup ex = List.map_filter ex [a, b])"
  by (simp add: linkedin_parse_job_listings_def indeed_parse_job_listings_def
        infojobs_parse_job_listings_def Let_def)

theorem fallback_chain_first_nonempty_witness:
  "linkedin_parse_job_listings
     \<lparr>find_all = (\<lambda>t c. if c = ''jobs-search-results__list-item'' then [1, 2] else []),
      select = (\<lambda>css. [3 :: nat])\<rparr>
     (\<lambda>n. if n = 2 then None else Some (JobOffer_init ''Engineer'' ''Acme'' ''N/A'' ''N/A'' ''N/A'' ''N/A''))
   = [JobOffer_init ''Engineer'' ''Acme'' ''N/A'' ''N/A'' ''N/A'' ''N/A'']
   \<and> indeed_parse_job_listings
     \<lparr>find_all = (\<lambda>t c. if c = ''jobsearch-SerpJobCard'' then [1, 2] else []),
      select = (\<lambda>css. [3 :: nat])\<rparr>
     (\<lambda>n. Some (JobOffer_init (if n = 1 then ''Engineer'' else ''Analyst'') ''Acme'' ''N/A'' ''N/A'' ''N/A'' ''N/A''))
   = [JobOffer_init ''Engineer'' ''Acme'' ''N/A'' ''N/A'' ''N/A'' ''N/A'',
      JobOffer_init ''Analyst'' ''Acme'' ''N/A'' ''N/A'' ''N/A'' ''N/A'']"
proof
  let ?soup = "\<lparr>find_all = (\<lambda>t c. if c = ''jobs-search-results__list-item'' then [1, 2] else []),
      select = (\<lambda>css. [3 :: nat])\<rparr>"
  let ?ex = "(\<lambda>n::nat. if n = 2 then None else Some (JobOffer_init ''Engineer'' ''Acme'' ''N/A'' ''N/A'' ''N/A'' ''N/A''))"
  from fallback_chain_first_nonempty [of ?soup ?ex 1 2]
  show "linkedin_parse_job_listings ?soup ?ex = [JobOffer_init ''Engineer'' ''Acme'' ''N/A'' ''N/A'' ''N/A'' ''N/A'']"
    by (simp add: List.map_filter_simps)
next
  let ?soup = "\<lparr>find_all = (\<lambda>t c. if c = ''jobsearch-SerpJobCard'' then [1, 2] else []),
      select = (\<lambda>css. [3 :: nat])\<rparr>"
  let ?ex = "(\<lambda>n::nat. Some (JobOffer_init (if n = 1 then ''Engineer'' else ''Analyst'') ''Acme'' ''N/A'' ''N/A'' ''N/A'' ''N/A''))"
  from fallback_chain_first_nonempty [of ?soup ?ex 1 2]
  show "indeed_parse_job_listings ?soup ?ex = [JobOffer_init ''Engineer'' ''Acme'' ''N/A'' ''N/A'' ''N/A'' ''N/A'',
      JobOffer_init ''Analyst'' ''Acme'' ''N/A'' ''N/A'' ''N/A'' ''N/A'']"
    by (simp add: List.map_filter_simps)
qed

section \<open>The API-backed scraper\<close>


lemma parse_items_filter:
  "parse_items base kwl data found =
     found @ filter (\<lambda>job. kwl = [] \<or> str_in kwl
                (str_lower (JobOffer.job_title job @ '' '' @ JobOffer.company job @ '' '' @
                            JobOffer.tags job)))
       (List.map_filter (extract_job base) (filter (\<lambda>i. FeedItem.legal i = None) data))"
  by (induction data arbitrary: found) (auto simp: List.map_filter_simps split: option.splits)

lemma parse_api_response_filter:
  "parse_api_response base data kw =
     take 50 (filter (keyword_matches kw)
       (List.map_filter (extract_job base) (filter (\<lambda>i. FeedItem.legal i = None) data)))"
proof (cases "kw = []")
  case True
  then show ?thesis
    by (simp add: parse_api_response_def parse_items_filter keyword_matches_def)
next
  case False
  then have "str_lower kw \<noteq> []" by (simp add: str_lower_def)
  moreover have "keyword_matches kw = (\<lambda>job. str_in (str_lower kw)
      (str_lower (JobOffer.job_title job @ '' '' @ JobOffer.company job @ '' '' @ JobOffer.tags job)))"
    using False by (simp add: keyword_matches_def fun_eq_iff)
  ultimately show ?thesis using False
    by (simp add: parse_api_response_def parse_items_filter)
qed


text \<open>
  Claim C7. \<open>_parse_api_response\<close> returns, in feed order and cut to 50, the offers
  extracted from the entries without the key \<open>legal\<close> that pass the keyword filter
  (no keyword, or the lower-cased keyword occurs in the lower-cased title, company and
  tags joined by spaces). For a metadata entry followed by three offer entries of which
  the keyword matches one, the result is exactly that offer.
\<close>

theorem parse_api_response_filters:
  "parse_api_response base data kw =
     take 50 (filter (keyword_matches kw)
       (List.map_filter (extract_job base) (filter (\<lambda>i. FeedItem.legal i = None) data)))
   \<and> length (parse_api_response base data kw) \<le> 50
   \<and> (FeedItem.legal meta \<noteq> None \<and> FeedItem.legal a = None \<and> FeedItem.legal b = None \<and>
        FeedItem.legal c = None \<and>
        extract_job base a = Some ja \<and> extract_job base b = Some jb \<and> extract_job base c = Some jc \<and>
        length (filter (keyword_matches kw) [ja, jb, jc]) = 1
        \<longrightarrow> parse_api_response base [meta, a, b, c] kw = filter (keyword_matches kw) [ja, jb, jc]
          \<and> length (parse_api_response base [meta, a, b, c] kw) = 1)"
proof -
  have 1: "\<And>d. parse_api_response base d kw =
     take 50 (filter (keyword_matches kw)
       (List.map_filter (extract_job base) (filter (\<lambda>i. FeedItem.legal i = None) d)))"
    by (rule parse_api_response_filter)
  have 2: "length (parse_api_response base data kw) \<le> 50"
    unfolding 1 by simp
  have 3: "parse_api_response base [meta, a, b, c] kw = filter (keyword_matches kw) [ja, jb, jc]
          \<and> length (parse_api_response base [meta, a, b, c] kw) = 1"
    if h: "FeedItem.legal meta \<noteq> None" "FeedItem.legal a = None" "FeedItem.legal b = None"
        "FeedItem.legal c = None"
        "extract_job base a = Some ja" "extract_job base b = Some jb" "extract_job base c = Some jc"
        "length (filter (keyword_matches kw) [ja, jb, jc]) = 1"
  proof -
    have m: "List.map_filter (extract_job base) (filter (\<lambda>i. FeedItem.legal i = None) [meta, a, b, c])
        = [ja, jb, jc]"
      using h(1-7) by (auto simp: List.map_filter_simps)
    have "parse_api_response base [meta, a, b, c] kw = take 50 (filter (keyword_matches kw) [ja, jb, jc])"
      unfolding 1 m ..
    also have "\<dots> = filter (keyword_matches kw) [ja, jb, jc]"
      using h(8) by (intro take_all) simp
    finally show ?thesis using h(8) by simp
  qed
  from 1 2 3 show ?thesis by blast
qed

theorem parse_api_response_filters_witness:
  "parse_api_response ''https://remoteok.com'' [feed_meta, feed_backend, feed_systems, feed_designer] ''PYTHON''
     = [\<lparr>JobOffer.job_title = ''Backend Developer'', company = ''Acme'', tags = ''python, django'',
         apply_link = ''https://remoteok.com/backend-1'', location = ''Remote'',
         salary = ''$50,000 - $70,000'', source = ''N/A''\<rparr>]
   \<and> length (parse_api_response ''https://remoteok.com''
         [feed_meta, feed_backend, feed_systems, feed_designer] ''PYTHON'') = 1"
proof -
  let ?ja = "\<lparr>JobOffer.job_title = ''Backend Developer'', company = ''Acme'', tags = ''python, django'',
         apply_link = ''https://remoteok.com/backend-1'', location = ''Remote'',
         salary = ''$50,000 - $70,000'', source = ''N/A''\<rparr>"
  let ?jb = "\<lparr>JobOffer.job_title = ''Systems Engineer'', company = ''Initech'', tags = ''rust'',
         apply_link = ''https://initech.example/jobs/7'', location = ''Berlin'',
         salary = ''$60,000+'', source = ''N/A''\<rparr>"
  let ?jc = "\<lparr>JobOffer.job_title = ''Designer'', company = ''N/A'', tags = ''N/A'',
         apply_link = ''https://remoteok.com/designer-3'', location = ''Remote'',
         salary = ''N/A'', source = ''N/A''\<rparr>"
  have l: "FeedItem.legal feed_meta \<noteq> None \<and> FeedItem.legal feed_backend = None \<and>
      FeedItem.legal feed_systems = None \<and> FeedItem.legal feed_designer = None"
    by (simp add: feed_meta_def feed_backend_def feed_systems_def feed_designer_def)
  have a: "extract_job ''https://remoteok.com'' feed_backend = Some ?ja"
    by (simp add: extract_job_def Let_def JobOffer_init_def truthy_def format_thousands_def
          feed_backend_def)
  have b: "extract_job ''https://remoteok.com'' feed_systems = Some ?jb"
    by (simp add: extract_job_def Let_def JobOffer_init_def truthy_def format_thousands_def
          feed_systems_def)
  have c: "extract_job ''https://remoteok.com'' feed_designer = Some ?jc"
    by (simp add: extract_job_def Let_def JobOffer_init_def truthy_def format_thousands_def
          feed_designer_def)
  have f: "filter (keyword_matches ''PYTHON'') [?ja, ?jb, ?jc] = [?ja]"
    by code_simp
  then have n: "length (filter (keyword_matches ''PYTHON'') [?ja, ?jb, ?jc]) = 1" by simp
  from parse_api_response_filters [of "''https://remoteok.com''" _ "''PYTHON''"
      feed_meta feed_backend feed_systems feed_designer ?ja ?jb ?jc] l a b c n
  have "parse_api_response ''https://remoteok.com''
          [feed_meta, feed_backend, feed_systems, feed_designer] ''PYTHON''
        = filter (keyword_matches ''PYTHON'') [?ja, ?jb, ?jc]
      \<and> length (parse_api_response ''https://remoteok.com''
          [feed_meta, feed_backend, feed_systems, feed_designer] ''PYTHON'') = 1"
    by blast
  then show ?thesis unfolding f .
qed

lemma digit_not_plus: "k < 10 \<Longrightarrow> ''0123456789'' ! k \<noteq> CHR ''+''"
proof -
  assume "k < 10"
  then have "''0123456789'' ! k \<in> set ''0123456789''" by (intro nth_mem) simp
  then show ?thesis by auto
qed

lemma digits_last: "digits n \<noteq> [] \<and> last (digits n) \<noteq> CHR ''+''"
proof (cases "n < 10")
  case True
  then show ?thesis using digit_not_plus [of n] by simp
next
  case False
  have "n mod 10 < 10" by simp
  then have "''0123456789'' ! (n mod 10) \<noteq> CHR ''+''" by (rule digit_not_plus)
  with False show ?thesis by (subst (1 2) digits.simps) simp
qed

lemma group3_hd: "ds \<noteq> [] \<Longrightarrow> group3 ds \<noteq> [] \<and> hd (group3 ds) = hd ds"
  by (induction ds rule: group3.induct) auto

lemma format_thousands_last:
  "format_thousands n \<noteq> [] \<and> last (format_thousands n) \<noteq> CHR ''+''"
proof -
  let ?ds = "digits (nat \<bar>n\<bar>)"
  have d: "?ds \<noteq> []" and l: "last ?ds \<noteq> CHR ''+''" using digits_last by blast+
  from d have r: "rev ?ds \<noteq> []" by simp
  from group3_hd [OF r] have g: "group3 (rev ?ds) \<noteq> []" and h: "hd (group3 (rev ?ds)) = hd (rev ?ds)"
    by blast+
  have "last (rev (group3 (rev ?ds))) = hd (group3 (rev ?ds))" using g by (simp add: last_rev)
  also have "\<dots> = last ?ds" using h d by (simp add: hd_rev)
  finally have "last (rev (group3 (rev ?ds))) \<noteq> CHR ''+''" using l by simp
  with g show ?thesis by (simp add: format_thousands_def)
qed

lemma range_not_at_least:
  "''$'' @ format_thousands a @ '' - $'' @ format_thousands b \<noteq> ''$'' @ format_thousands c @ ''+''"
proof
  assume e: "''$'' @ format_thousands a @ '' - $'' @ format_thousands b = ''$'' @ format_thousands c @ ''+''"
  have l: "last (''$'' @ format_thousands a @ '' - $'' @ format_thousands b) = last (format_thousands b)"
    using format_thousands_last [of b] by simp
  have r: "last (''$'' @ format_thousands c @ ''+'') = CHR ''+''" by simp
  from e have "last (''$'' @ format_thousands a @ '' - $'' @ format_thousands b)
      = last (''$'' @ format_thousands c @ ''+'')" by (rule arg_cong)
  then have "last (format_thousands b) = CHR ''+''" unfolding l r .
  with format_thousands_last [of b] show False by simp
qed

lemma extract_job_salary_eq:
  assumes "extract_job base item = Some job"
  shows "JobOffer.salary job =
     (if truthy (FeedItem.salary_min item) \<and> truthy (FeedItem.salary_max item)
      then ''$'' @ format_thousands (the (FeedItem.salary_min item)) @ '' - $'' @
           format_thousands (the (FeedItem.salary_max item))
      else if truthy (FeedItem.salary_min item)
      then ''$'' @ format_thousands (the (FeedItem.salary_min item)) @ ''+''
      else ''N/A'')"
  using assms by (auto simp: extract_job_def Let_def JobOffer_init_def split: if_splits)

text \<open>
  Claim C8, as amended. A salary bound counts when it is present and not zero. For
  every feed entry that yields an offer, the salary is a formatted range exactly when
  both bounds count, a formatted lower bound followed by \<open>+\<close> exactly when the lower
  bound counts and the upper does not, and the sentinel \<open>N/A\<close> exactly when the lower
  bound does not count, whatever the upper bound is.
\<close>

theorem extract_job_salary:
  assumes "extract_job base item = Some job"
  shows "((\<exists>a b. JobOffer.salary job = ''$'' @ format_thousands a @ '' - $'' @ format_thousands b)
          \<longleftrightarrow> truthy (FeedItem.salary_min item) \<and> truthy (FeedItem.salary_max item))
       \<and> ((\<exists>a. JobOffer.salary job = ''$'' @ format_thousands a @ ''+'')
          \<longleftrightarrow> truthy (FeedItem.salary_min item) \<and> \<not> truthy (FeedItem.salary_max item))
       \<and> (JobOffer.salary job = ''N/A'' \<longleftrightarrow> \<not> truthy (FeedItem.salary_min item))
       \<and> (truthy (FeedItem.salary_min item) \<and> truthy (FeedItem.salary_max item) \<longrightarrow>
            JobOffer.salary job = ''$'' @ format_thousands (the (FeedItem.salary_min item)) @ '' - $'' @
              format_thousands (the (FeedItem.salary_max item)))
       \<and> (truthy (FeedItem.salary_min item) \<and> \<not> truthy (FeedItem.salary_max item) \<longrightarrow>
            JobOffer.salary job = ''$'' @ format_thousands (the (FeedItem.salary_min item)) @ ''+'')
       \<and> (\<forall>v. truthy v \<longleftrightarrow> (\<exists>n. v = Some n \<and> n \<noteq> 0))"
proof -
  note s = extract_job_salary_eq [OF assms]
  have t: "\<forall>v. truthy v \<longleftrightarrow> (\<exists>n. v = Some n \<and> n \<noteq> 0)"
    by (auto simp: truthy_def split: option.splits)
  show ?thesis
  proof (cases "truthy (FeedItem.salary_min item)")
    case False
    with s have "JobOffer.salary job = ''N/A''" by simp
    with False t show ?thesis by simp
  next
    case mn: True
    show ?thesis
    proof (cases "truthy (FeedItem.salary_max item)")
      case True
      with mn s have e: "JobOffer.salary job = ''$'' @ format_thousands (the (FeedItem.salary_min item)) @ '' - $'' @
              format_thousands (the (FeedItem.salary_max item))" by simp
      have 1: "\<exists>a b. JobOffer.salary job = ''$'' @ format_thousands a @ '' - $'' @ format_thousands b"
        using e by blast
      have 2: "\<not> (\<exists>a. JobOffer.salary job = ''$'' @ format_thousands a @ ''+'')"
        unfolding e using range_not_at_least by blast
      have 3: "JobOffer.salary job \<noteq> ''N/A''" unfolding e by simp
      from 1 2 3 e mn True t show ?thesis by blast
    next
      case False
      with mn s have e: "JobOffer.salary job = ''$'' @ format_thousands (the (FeedItem.salary_min item)) @ ''+''"
        by simp
      have 1: "\<not> (\<exists>a b. JobOffer.salary job = ''$'' @ format_thousands a @ '' - $'' @ format_thousands b)"
        unfolding e using range_not_at_least [symmetric] by blast
      have 2: "\<exists>a. JobOffer.salary job = ''$'' @ format_thousands a @ ''+''"
        using e by blast
      have 3: "JobOffer.salary job \<noteq> ''N/A''" unfolding e by simp
      from 1 2 3 e mn False t show ?thesis by blast
    qed
  qed
qed

theorem extract_job_salary_witness:
  "extract_job ''https://remoteok.com'' feed_backend =
     Some \<lparr>JobOffer.job_title = ''Backend Developer'', company = ''Acme'', tags = ''python, django'',
       apply_link = ''https://remoteok.com/backend-1'', location = ''Remote'',
       salary = ''$50,000 - $70,000'', source = ''N/A''\<rparr>
   \<and> truthy (FeedItem.salary_min feed_backend) \<and> truthy (FeedItem.salary_max feed_backend)
   \<and> (\<exists>a b. ''$50,000 - $70,000'' = ''$'' @ format_thousands a @ '' - $'' @ format_thousands b)"
proof -
  have e: "extract_job ''https://remoteok.com'' feed_backend =
     Some \<lparr>JobOffer.job_title = ''Backend Developer'', company = ''Acme'', tags = ''python, django'',
       apply_link = ''https://remoteok.com/backend-1'', location = ''Remote'',
       salary = ''$50,000 - $70,000'', source = ''N/A''\<rparr>"
    by (simp add: extract_job_def Let_def JobOffer_init_def truthy_def format_thousands_def
          feed_meta_def feed_backend_def feed_systems_def feed_designer_def)
  have t: "truthy (FeedItem.salary_min feed_backend) \<and> truthy (FeedItem.salary_max feed_backend)"
    by (simp add: extract_job_def Let_def JobOffer_init_def truthy_def format_thousands_def
          feed_meta_def feed_backend_def feed_systems_def feed_designer_def)
  from extract_job_salary [OF e] t
  have "\<exists>a b. JobOffer.salary \<lparr>JobOffer.job_title = ''Backend Developer'', company = ''Acme'',
       tags = ''python, django'', apply_link = ''https://remoteok.com/backend-1'', location = ''Remote'',
       salary = ''$50,000 - $70,000'', source = ''N/A''\<rparr>
     = ''$'' @ format_thousands a @ '' - $'' @ format_thousands b"
    by blast
  then have "\<exists>a b. ''$50,000 - $70,000'' = ''$'' @ format_thousands a @ '' - $'' @ format_thousands b"
    by simp
  with e t show ?thesis by blast
qed

text \<open>
  The claim as first stated fails: an entry with only an upper bound, and an entry
  whose two bounds are present and zero, both get the sentinel.
\<close>

theorem extract_job_salary_counterexample:
  "extract_job ''https://remoteok.com'' feed_designer =
     Some \<lparr>JobOffer.job_title = ''Designer'', company = ''N/A'', tags = ''N/A'',
       apply_link = ''https://remoteok.com/designer-3'', location = ''Remote'',
       salary = ''N/A'', source = ''N/A''\<rparr>
   \<and> FeedItem.salary_max feed_designer = Some 100000
   \<and> extract_job ''https://remoteok.com'' (feed_backend\<lparr>salary_min := Some 0, salary_max := Some 0\<rparr>) =
     Some \<lparr>JobOffer.job_title = ''Backend Developer'', company = ''Acme'', tags = ''python, django'',
       apply_link = ''https://remoteok.com/backend-1'', location = ''Remote'',
       salary = ''N/A'', source = ''N/A''\<rparr>"
  by (simp add: extract_job_def Let_def JobOffer_init_def truthy_def format_thousands_def
          feed_meta_def feed_backend_def feed_systems_def feed_designer_def)

section \<open>Tag statistics\<close>

lemma count_row_fold:
  "count_row tgs tc =
     fold count_tag (filter (\<lambda>t. t \<noteq> []) (map str_strip (str_split (CHR '','') tgs))) tc"
proof -
  have f: "\<And>segs acc. fold (\<lambda>seg acc. let tag = str_strip seg in if tag \<noteq> [] then count_tag tag acc else acc) segs acc
      = fold count_tag (filter (\<lambda>t. t \<noteq> []) (map str_strip segs)) acc"
    subgoal for segs acc by (induction segs arbitrary: acc) (simp_all add: Let_def)
    done
  show ?thesis
  proof (cases "tgs = []")
    case True
    then show ?thesis by (simp add: count_row_def str_strip_def)
  next
    case False
    then show ?thesis by (simp add: count_row_def f)
  qed
qed

lemma fold_count_row:
  "fold count_row all_tags acc = fold count_tag (tag_tokens all_tags) acc"
  by (induction all_tags arbitrary: acc) (simp_all add: tag_tokens_def count_row_fold)

lemma count_tag_keys:
  "map fst (count_tag t kvs) = (if t \<in> set (map fst kvs) then map fst kvs else map fst kvs @ [t])"
  by (induction kvs) (simp, force)

lemma fold_count_tag_keys:
  "map fst (fold count_tag toks acc)
     = map fst acc @ filter (\<lambda>t. t \<notin> set (map fst acc)) (first_seen toks)"
proof (induction toks arbitrary: acc)
  case Nil
  then show ?case by simp
next
  case (Cons x xs)
  show ?case
  proof (cases "x \<in> set (map fst acc)")
    case True
    then have "filter (\<lambda>t. t \<notin> set (map fst acc)) (filter (\<lambda>y. y \<noteq> x) (first_seen xs))
        = filter (\<lambda>t. t \<notin> set (map fst acc)) (first_seen xs)"
      by (auto simp: filter_filter intro: filter_cong)
    with True show ?thesis by (simp add: Cons.IH count_tag_keys)
  next
    case False
    have "filter (\<lambda>t. t \<notin> set (map fst acc) \<and> t \<noteq> x) (first_seen xs)
        = filter (\<lambda>t. t \<notin> set (map fst acc)) (filter (\<lambda>y. y \<noteq> x) (first_seen xs))"
      by (auto simp: filter_filter intro: filter_cong)
    with False show ?thesis by (simp add: Cons.IH count_tag_keys)
  qed
qed

lemma distinct_first_seen: "distinct (first_seen xs)"
  by (induction xs) auto

lemma set_first_seen: "set (first_seen xs) = set xs"
  by (induction xs) auto

lemma cnt_count_tag: "cnt (count_tag x kvs) t = cnt kvs t + (if t = x then 1 else 0)"
  by (induction kvs) (auto simp: cnt_def)

lemma cnt_fold: "cnt (fold count_tag toks acc) t = cnt acc t + count_list toks t"
  by (induction toks arbitrary: acc) (auto simp: cnt_count_tag)

lemma tag_counts_char:
  "tag_counts all_tags
     = map (\<lambda>t. (t, count_list (tag_tokens all_tags) t)) (first_seen (tag_tokens all_tags))"
proof -
  let ?toks = "tag_tokens all_tags"
  let ?tc = "fold count_tag ?toks []"
  have tc: "tag_counts all_tags = ?tc" by (simp add: tag_counts_def fold_count_row)
  have keys: "map fst ?tc = first_seen ?toks"
    using fold_count_tag_keys [of ?toks "[]"] by simp
  then have d: "distinct (map fst ?tc)" by (simp add: distinct_first_seen)
  have "\<And>kv. kv \<in> set ?tc \<Longrightarrow> (fst kv, count_list ?toks (fst kv)) = kv"
  proof -
    fix kv assume "kv \<in> set ?tc"
    then have "(fst kv, snd kv) \<in> set ?tc" by simp
    with d have "map_of ?tc (fst kv) = Some (snd kv)" by (rule map_of_is_SomeI)
    then have "cnt ?tc (fst kv) = snd kv" by (simp add: cnt_def)
    moreover have "cnt ?tc (fst kv) = count_list ?toks (fst kv)"
      using cnt_fold [of ?toks "[]" "fst kv"] by (simp add: cnt_def)
    ultimately show "(fst kv, count_list ?toks (fst kv)) = kv" by (simp add: prod_eq_iff)
  qed
  then have "map (\<lambda>kv. (fst kv, count_list ?toks (fst kv))) ?tc = ?tc" by (rule map_idI)
  then have "?tc = map (\<lambda>t. (t, count_list ?toks t)) (map fst ?tc)" by (simp add: comp_def)
  then show ?thesis unfolding tc keys .
qed

lemma top_tags_sorted:
  "\<exists>S. top_tags all_tags = take 15 S
       \<and> set S = set (tag_counts all_tags) \<and> length S = length (tag_counts all_tags)
       \<and> sorted_wrt (\<lambda>a b. snd b \<le> snd a) S
       \<and> (\<forall>k. filter (\<lambda>kv. snd kv = k) S = filter (\<lambda>kv. snd kv = k) (tag_counts all_tags))"
proof -
  let ?f = "\<lambda>kv :: string \<times> nat. - int (snd kv)"
  let ?S = "sort_key ?f (tag_counts all_tags)"
  have 1: "top_tags all_tags = take 15 ?S" by (simp add: top_tags_def)
  have 2: "set ?S = set (tag_counts all_tags)" "length ?S = length (tag_counts all_tags)" by simp_all
  have "sorted (map ?f ?S)" by (rule sorted_sort_key)
  then have 3: "sorted_wrt (\<lambda>a b. snd b \<le> snd a) ?S" by (simp add: sorted_wrt_map)
  have 4: "filter (\<lambda>kv. snd kv = k) ?S = filter (\<lambda>kv. snd kv = k) (tag_counts all_tags)" for k
    using sort_key_stable [of ?f "- int k" "tag_counts all_tags"] by simp
  from 1 2 3 4 show ?thesis by blast
qed

text \<open>
  Claim C5, as amended. Tag aggregation splits each tag string on commas, trims the
  pieces and drops the empty ones; it counts each tag as the exact string it is (upper
  and lower case are different tags), keeps the tags in the order they were first seen,
  and \<open>top_tags\<close> is the first 15 of the tags sorted by descending count, tags with equal
  counts staying in first-seen order. Aggregating \<open>Python, react\<close>, \<open>python , Go\<close> and
  the empty string gives Python 1, react 1, python 1, Go 1.
\<close>

theorem tag_aggregation:
  "tag_counts all_tags
     = map (\<lambda>t. (t, count_list (tag_tokens all_tags) t)) (first_seen (tag_tokens all_tags))
   \<and> (\<exists>S. top_tags all_tags = take 15 S
          \<and> set S = set (tag_counts all_tags) \<and> length S = length (tag_counts all_tags)
          \<and> sorted_wrt (\<lambda>a b. snd b \<le> snd a) S
          \<and> (\<forall>k. filter (\<lambda>kv. snd kv = k) S = filter (\<lambda>kv. snd kv = k) (tag_counts all_tags)))
   \<and> tag_tokens [''Python, react'', ''python , Go'', ''''] = [''Python'', ''react'', ''python'', ''Go'']
   \<and> tag_counts [''Python, react'', ''python , Go'', '''']
       = [(''Python'', 1), (''react'', 1), (''python'', 1), (''Go'', 1)]"
proof -
  have "tag_tokens [''Python, react'', ''python , Go'', ''''] = [''Python'', ''react'', ''python'', ''Go'']"
    by code_simp
  moreover have "tag_counts [''Python, react'', ''python , Go'', '''']
       = [(''Python'', 1), (''react'', 1), (''python'', 1), (''Go'', 1)]"
    by code_simp
  ultimately show ?thesis using tag_counts_char [of all_tags] top_tags_sorted [of all_tags]
    by blast
qed

theorem tag_aggregation_witness:
  "tag_counts [''go, rust'', ''rust , sql,sql'', ''sql, ,'']
     = [(''go'', 1), (''rust'', 2), (''sql'', 3)]
   \<and> top_tags [''go, rust'', ''rust , sql,sql'', ''sql, ,'']
     = [(''sql'', 3), (''rust'', 2), (''go'', 1)]"
proof -
  have "map (\<lambda>t. (t, count_list (tag_tokens [''go, rust'', ''rust , sql,sql'', ''sql, ,'']) t))
          (first_seen (tag_tokens [''go, rust'', ''rust , sql,sql'', ''sql, ,'']))
        = [(''go'', 1), (''rust'', 2), (''sql'', 3)]"
    by code_simp
  with tag_aggregation [of "[''go, rust'', ''rust , sql,sql'', ''sql, ,'']"]
  have c: "tag_counts [''go, rust'', ''rust , sql,sql'', ''sql, ,'']
     = [(''go'', 1), (''rust'', 2), (''sql'', 3)]"
    by simp
  have "top_tags [''go, rust'', ''rust , sql,sql'', ''sql, ,''] = [(''sql'', 3), (''rust'', 2), (''go'', 1)]"
    unfolding top_tags_def c by simp
  with c show ?thesis by blast
qed

text \<open>The counts of the claim as first stated (Python 2) are not the ones computed.\<close>

theorem tag_aggregation_counterexample:
  "tag_counts [''Python, react'', ''python , Go'', '''']
     \<noteq> [(''Python'', 2), (''react'', 1), (''Go'', 1)]
   \<and> map_of (tag_counts [''Python, react'', ''python , Go'', '''']) ''Python'' = Some 1
   \<and> map_of (tag_counts [''Python, react'', ''python , Go'', '''']) ''python'' = Some 1"
proof -
  have "tag_counts [''Python, react'', ''python , Go'', '''']
       = [(''Python'', 1), (''react'', 1), (''python'', 1), (''Go'', 1)]"
    by code_simp
  then show ?thesis by simp
qed

section \<open>Facts about the session and the loops of a run\<close>

lemma insert_rows_append:
  "\<exists>js'. insert_rows now rows js = rows @ js' \<and> map Job.apply_link js' = map Job.apply_link js"
proof (induction js arbitrary: rows)
  case Nil
  then show ?case by simp
next
  case (Cons j js)
  from Cons [of "rows @ [j\<lparr>Job.id' := Some (next_job_id rows), Job.created_at := Some now\<rparr>]"]
  obtain js' where "insert_rows now (rows @ [j\<lparr>Job.id' := Some (next_job_id rows), Job.created_at := Some now\<rparr>]) js
      = (rows @ [j\<lparr>Job.id' := Some (next_job_id rows), Job.created_at := Some now\<rparr>]) @ js'"
    and "map Job.apply_link js' = map Job.apply_link js" by blast
  then show ?case
    by (intro exI [of _ "j\<lparr>Job.id' := Some (next_job_id rows), Job.created_at := Some now\<rparr> # js'"]) simp
qed

lemma flush_props:
  "scrape_logs (flush now s) = scrape_logs s" "autoflush (flush now s) = autoflush s"
  "pending (flush now s) = []"
  by (simp_all add: flush_def)

lemma flush_jobs: "\<exists>ext. jobs (flush now s) = jobs s @ ext \<and> map Job.apply_link ext = map Job.apply_link (pending s)"
  using insert_rows_append [of now "jobs s" "pending s"] by (simp add: flush_def)

lemma flush_all_links: "all_links (flush now s) = all_links s"
  using flush_jobs [of now s] by (auto simp: all_links_def flush_props)

lemma grows_refl: "grows s n s n"
  by (simp add: grows_def)

lemma grows_trans:
  assumes "grows s n s1 n1" and "grows s1 n1 s2 n2"
  shows "grows s n s2 n2"
proof -
  from assms(1) obtain ext nl where
    a: "autoflush s1 = autoflush s" "jobs s1 = jobs s @ ext"
       "all_links s1 = all_links s @ nl" "n1 = n + length nl" "set nl \<inter> set (stored_links s) = {}"
       "autoflush s \<and> distinct (all_links s) \<longrightarrow> distinct (all_links s1)"
    unfolding grows_def by blast
  from assms(2) obtain ext' nl' where
    b: "autoflush s2 = autoflush s1" "jobs s2 = jobs s1 @ ext'"
       "all_links s2 = all_links s1 @ nl'" "n2 = n1 + length nl'" "set nl' \<inter> set (stored_links s1) = {}"
       "autoflush s1 \<and> distinct (all_links s1) \<longrightarrow> distinct (all_links s2)"
    unfolding grows_def by blast
  have "set (stored_links s) \<subseteq> set (stored_links s1)" using a(2) by (auto simp: stored_links_def)
  with b(5) a(5) have "set (nl @ nl') \<inter> set (stored_links s) = {}" by auto
  moreover have "all_links s2 = all_links s @ (nl @ nl')" using a(3) b(3) by simp
  moreover have "n2 = n + length (nl @ nl')" using a(4) b(4) by simp
  moreover have "jobs s2 = jobs s @ (ext @ ext')" using a(2) b(2) by simp
  ultimately show ?thesis unfolding grows_def using a(1,6) b(1,6) by (metis)
qed

lemma grows_flush: "grows s n (flush now s) n"
  using flush_jobs [of now s]
  by (auto simp: grows_def flush_props flush_all_links)

lemma grows_add:
  assumes "find (\<lambda>r. Job.apply_link r = JobOffer.apply_link job) (jobs s) = None"
    and "autoflush s \<longrightarrow> pending s = []"
  shows "grows s n (s\<lparr>pending := pending s @ [Job_of job]\<rparr>) (Suc n)"
proof -
  from assms(1) have nin: "JobOffer.apply_link job \<notin> set (stored_links s)"
    by (auto simp: find_None_iff stored_links_def)
  have l: "Job.apply_link (Job_of job) = JobOffer.apply_link job" by (simp add: Job_of_def)
  have al: "all_links (s\<lparr>pending := pending s @ [Job_of job]\<rparr>) = all_links s @ [JobOffer.apply_link job]"
    by (simp add: all_links_def l)
  have d: "autoflush s \<and> distinct (all_links s) \<longrightarrow> distinct (all_links s @ [JobOffer.apply_link job])"
    using assms(2) nin by (auto simp: all_links_def stored_links_def)
  show ?thesis unfolding grows_def al using nin d by auto
qed

lemma store_jobs_grows:
  "store_jobs now found (s, n) = (s', n') \<Longrightarrow> grows s n s' n'"
proof (induction found arbitrary: s n)
  case Nil
  then show ?case by (simp add: grows_refl)
next
  case (Cons job rest)
  define s1 where "s1 = (if autoflush s then flush now s else s)"
  have g1: "grows s n s1 n" unfolding s1_def by (simp add: grows_flush grows_refl)
  have p1: "autoflush s1 \<longrightarrow> pending s1 = []" unfolding s1_def by (simp add: flush_props)
  show ?case
  proof (cases "find (\<lambda>r. Job.apply_link r = JobOffer.apply_link job) (jobs s1)")
    case None
    with Cons.prems have "store_jobs now rest (s1\<lparr>pending := pending s1 @ [Job_of job]\<rparr>, Suc n) = (s', n')"
      by (simp add: s1_def Let_def)
    then have "grows (s1\<lparr>pending := pending s1 @ [Job_of job]\<rparr>) (Suc n) s' n'" by (rule Cons.IH)
    with grows_add [OF None p1] g1 show ?thesis by (blast intro: grows_trans)
  next
    case (Some r)
    with Cons.prems have "store_jobs now rest (s1, n) = (s', n')"
      by (simp add: s1_def Let_def)
    then have "grows s1 n s' n'" by (rule Cons.IH)
    with g1 show ?thesis by (blast intro: grows_trans)
  qed
qed

lemma store_jobs_logs:
  "store_jobs now found (s, n) = (s', n') \<Longrightarrow> scrape_logs s' = scrape_logs s"
proof (induction found arbitrary: s n)
  case Nil
  then show ?case by simp
next
  case (Cons job rest)
  define s1 where "s1 = (if autoflush s then flush now s else s)"
  have l1: "scrape_logs s1 = scrape_logs s" unfolding s1_def by (simp add: flush_props)
  show ?case
  proof (cases "find (\<lambda>r. Job.apply_link r = JobOffer.apply_link job) (jobs s1)")
    case None
    with Cons.prems have "store_jobs now rest (s1\<lparr>pending := pending s1 @ [Job_of job]\<rparr>, Suc n) = (s', n')"
      by (simp add: s1_def Let_def)
    from Cons.IH [OF this] l1 show ?thesis by simp
  next
    case (Some r)
    with Cons.prems have "store_jobs now rest (s1, n) = (s', n')"
      by (simp add: s1_def Let_def)
    from Cons.IH [OF this] l1 show ?thesis by simp
  qed
qed

lemma commit_props:
  "scrape_logs (commit now s) = scrape_logs s" "autoflush (commit now s) = autoflush s"
  "pending (commit now s) = []"
  by (simp_all add: commit_def flush_props)

lemma grows_commit: "grows s n (commit now s) n"
  by (simp add: commit_def grows_flush)

lemma try_site_props:
  "scrape_logs (db (try_site now scr kw loc site st)) = scrape_logs (db st)
   \<and> grows (db st) (total_jobs st) (db (try_site now scr kw loc site st)) (total_jobs (try_site now scr kw loc site st))
   \<and> (pending (db st) = [] \<longrightarrow> pending (db (try_site now scr kw loc site st)) = [])
   \<and> (\<exists>mids. committed (try_site now scr kw loc site st) = committed st @ mids
         \<and> list_all (\<lambda>m. scrape_logs m = scrape_logs (db st)) mids)"
proof (cases "scrape_outcome scr kw loc")
  case (Inl e)
  then show ?thesis by (simp add: try_site_def grows_refl)
next
  case (Inr found)
  obtain s1 tot where sj: "store_jobs now found (db st, total_jobs st) = (s1, tot)"
    by (cases "store_jobs now found (db st, total_jobs st)")
  then have g: "grows (db st) (total_jobs st) s1 tot" by (rule store_jobs_grows)
  with grows_commit [of s1 tot now] have g2: "grows (db st) (total_jobs st) (commit now s1) tot"
    by (blast intro: grows_trans)
  have l: "scrape_logs (commit now s1) = scrape_logs (db st)"
    using store_jobs_logs [OF sj] by (simp add: commit_props)
  have e: "try_site now scr kw loc site st
      = st\<lparr>db := commit now s1, total_jobs := tot, committed := committed st @ [commit now s1]\<rparr>"
    using Inr sj by (simp add: try_site_def Let_def)
  show ?thesis unfolding e using g2 l by (simp add: commit_props)
qed

lemma try_site_errors:
  "errors (try_site now scr kw loc site st)
     = errors st @ (case scrape_outcome scr kw loc of Inl e \<Rightarrow> [site @ '': '' @ e] | Inr found \<Rightarrow> [])"
  by (simp add: try_site_def Let_def split: sum.splits prod.splits)

lemma try_site_raises:
  "scrape_outcome scr kw loc = Inl e \<Longrightarrow>
     try_site now scr kw loc site st = st\<lparr>errors := errors st @ [site @ '': '' @ e]\<rparr>"
  by (simp add: try_site_def)

lemma scrape_sites_props:
  "scrape_sites now world kw loc i site_names st = (r, st') \<Longrightarrow>
     scrape_logs (db st') = scrape_logs (db st)
     \<and> grows (db st) (total_jobs st) (db st') (total_jobs st')
     \<and> (pending (db st) = [] \<longrightarrow> pending (db st') = [])
     \<and> (\<exists>mids. committed st' = committed st @ mids
           \<and> list_all (\<lambda>m. scrape_logs m = scrape_logs (db st)) mids)"
proof (induction site_names arbitrary: i st)
  case Nil
  then show ?case by (auto simp: grows_refl)
next
  case (Cons site rest)
  show ?case
  proof (cases "site \<in> set SCRAPERS")
    case False
    with Cons.prems have "scrape_sites now world kw loc (Suc i) rest
        (st\<lparr>errors := errors st @ [''Unknown site: '' @ site]\<rparr>) = (r, st')" by simp
    from Cons.IH [OF this] show ?thesis by simp
  next
    case True
    show ?thesis
    proof (cases "init_error (world i)")
      case (Some e)
      with True Cons.prems have "st' = st" by simp
      then show ?thesis by (auto simp: grows_refl)
    next
      case None
      let ?st1 = "try_site now (world i) kw loc site st"
      note t = try_site_props [of now "world i" kw loc site st]
      from t have l1: "scrape_logs (db ?st1) = scrape_logs (db st)" by blast
      show ?thesis
      proof (cases "close_error (world i)")
        case (Some e)
        with None True Cons.prems have "st' = ?st1" by (simp add: Let_def)
        with t show ?thesis by simp
      next
        case cn: None
        with None True Cons.prems have "scrape_sites now world kw loc (Suc i) rest ?st1 = (r, st')"
          by (simp add: Let_def)
        from Cons.IH [OF this] have
          l2: "scrape_logs (db st') = scrape_logs (db ?st1)"
          and g: "grows (db ?st1) (total_jobs ?st1) (db st') (total_jobs st')"
          and p: "pending (db ?st1) = [] \<longrightarrow> pending (db st') = []"
          and m: "\<exists>mids. committed st' = committed ?st1 @ mids
                \<and> list_all (\<lambda>m. scrape_logs m = scrape_logs (db ?st1)) mids"
          by blast+
        from t g have 1: "grows (db st) (total_jobs st) (db st') (total_jobs st')"
          by (blast intro: grows_trans)
        from t p have 2: "pending (db st) = [] \<longrightarrow> pending (db st') = []" by blast
        from t obtain m1 where m1: "committed ?st1 = committed st @ m1"
          "list_all (\<lambda>m. scrape_logs m = scrape_logs (db st)) m1" by blast
        from m obtain m2 where m2: "committed st' = committed ?st1 @ m2"
          "list_all (\<lambda>m. scrape_logs m = scrape_logs (db ?st1)) m2" by blast
        have "committed st' = committed st @ (m1 @ m2)" using m1(1) m2(1) by simp
        moreover have "list_all (\<lambda>m. scrape_logs m = scrape_logs (db st)) (m1 @ m2)"
          using m1(2) m2(2) l1 by simp
        ultimately have 3: "\<exists>mids. committed st' = committed st @ mids
           \<and> list_all (\<lambda>m. scrape_logs m = scrape_logs (db st)) mids" by blast
        from 1 2 3 l1 l2 show ?thesis by simp
      qed
    qed
  qed
qed

lemma shift_index:
  assumes "\<forall>j<length (x # xs). P (i + j)"
  shows "P i \<and> (\<forall>j<length xs. P (Suc i + j))"
proof
  from assms have "P (i + 0)" by fastforce
  then show "P i" by simp
  show "\<forall>j<length xs. P (Suc i + j)"
  proof (intro allI impI)
    fix j assume "j < length xs"
    then have "Suc j < length (x # xs)" by simp
    with assms have "P (i + Suc j)" by blast
    then show "P (Suc i + j)" by simp
  qed
qed

lemma scrape_sites_errors:
  assumes "\<forall>j<length site_names. init_error (world (i + j)) = None \<and> close_error (world (i + j)) = None"
  shows "fst (scrape_sites now world kw loc i site_names st) = None
       \<and> errors (snd (scrape_sites now world kw loc i site_names st))
           = errors st @ source_errors world kw loc i site_names"
  using assms
proof (induction site_names arbitrary: i st)
  case Nil
  then show ?case by simp
next
  case (Cons site rest)
  from shift_index [of site rest "\<lambda>k. init_error (world k) = None \<and> close_error (world k) = None" i]
    Cons.prems
  have h0: "init_error (world i) = None" "close_error (world i) = None"
    and hr: "\<forall>j<length rest. init_error (world (Suc i + j)) = None \<and> close_error (world (Suc i + j)) = None"
    by blast+
  note IH = Cons.IH [OF hr]
  show ?case
  proof (cases "site \<in> set SCRAPERS")
    case False
    with IH [of "st\<lparr>errors := errors st @ [''Unknown site: '' @ site]\<rparr>"] show ?thesis by simp
  next
    case True
    with h0 IH [of "try_site now (world i) kw loc site st"] show ?thesis
      by (simp add: Let_def try_site_errors split: sum.splits)
  qed
qed

lemma scrape_sites_all_raise:
  assumes "\<forall>j<length site_names. init_error (world (i + j)) = None \<and> close_error (world (i + j)) = None"
    and "\<forall>j<length site_names. isl (scrape_outcome (world (i + j)) kw loc)"
  shows "db (snd (scrape_sites now world kw loc i site_names st)) = db st
       \<and> total_jobs (snd (scrape_sites now world kw loc i site_names st)) = total_jobs st
       \<and> length (source_errors world kw loc i site_names) = length site_names
       \<and> (\<forall>j<length site_names. source_errors world kw loc i site_names ! j =
            (if site_names ! j \<in> set SCRAPERS
             then site_names ! j @ '': '' @ projl (scrape_outcome (world (i + j)) kw loc)
             else ''Unknown site: '' @ site_names ! j))"
  using assms
proof (induction site_names arbitrary: i st)
  case Nil
  then show ?case by simp
next
  case (Cons site rest)
  from shift_index [of site rest "\<lambda>k. init_error (world k) = None \<and> close_error (world k) = None" i]
    Cons.prems(1)
  have h0: "init_error (world i) = None" "close_error (world i) = None"
    and hr: "\<forall>j<length rest. init_error (world (Suc i + j)) = None \<and> close_error (world (Suc i + j)) = None"
    by blast+
  from shift_index [of site rest "\<lambda>k. isl (scrape_outcome (world k) kw loc)" i] Cons.prems(2)
  have h1: "isl (scrape_outcome (world i) kw loc)"
    and hs: "\<forall>j<length rest. isl (scrape_outcome (world (Suc i + j)) kw loc)"
    by blast+
  from h1 obtain e where e: "scrape_outcome (world i) kw loc = Inl e" by (auto simp: isl_def)
  note IH = Cons.IH [OF hr hs]
  have nth: "\<forall>j<length (site # rest). source_errors world kw loc i (site # rest) ! j =
            (if (site # rest) ! j \<in> set SCRAPERS
             then (site # rest) ! j @ '': '' @ projl (scrape_outcome (world (i + j)) kw loc)
             else ''Unknown site: '' @ (site # rest) ! j)"
  proof (intro allI impI)
    fix j assume j: "j < length (site # rest)"
    show "source_errors world kw loc i (site # rest) ! j =
            (if (site # rest) ! j \<in> set SCRAPERS
             then (site # rest) ! j @ '': '' @ projl (scrape_outcome (world (i + j)) kw loc)
             else ''Unknown site: '' @ (site # rest) ! j)"
    proof (cases j)
      case 0
      then show ?thesis using e by simp
    next
      case (Suc k)
      with j have "k < length rest" by simp
      with IH [of st] have "source_errors world kw loc (Suc i) rest ! k =
            (if rest ! k \<in> set SCRAPERS
             then rest ! k @ '': '' @ projl (scrape_outcome (world (Suc i + k)) kw loc)
             else ''Unknown site: '' @ rest ! k)" by blast
      with Suc e show ?thesis by simp
    qed
  qed
  have len: "length (source_errors world kw loc i (site # rest)) = length (site # rest)"
    using IH [of st] e by simp
  have st: "db (snd (scrape_sites now world kw loc i (site # rest) st)) = db st
       \<and> total_jobs (snd (scrape_sites now world kw loc i (site # rest) st)) = total_jobs st"
  proof (cases "site \<in> set SCRAPERS")
    case False
    with IH [of "st\<lparr>errors := errors st @ [''Unknown site: '' @ site]\<rparr>"] show ?thesis by simp
  next
    case True
    with h0 e IH [of "st\<lparr>errors := errors st @ [site @ '': '' @ e]\<rparr>"] show ?thesis
      by (simp add: Let_def try_site_raises)
  qed
  from st len nth show ?case by blast
qed

lemma find_update_first:
  "(\<And>x. P x \<Longrightarrow> P (f x)) \<Longrightarrow> find P (update_first P f xs) = map_option f (find P xs)"
  by (induction xs) auto

lemma find_log_update:
  assumes "\<And>l. ScrapeLog.id' (f l) = ScrapeLog.id' l"
  shows "find_log (update_log lid f s) lid = map_option f (find_log s lid)"
  unfolding find_log_def update_log_def using assms
  by (simp add: find_update_first)

lemma find_log_commit: "find_log (commit now s) lid = find_log s lid"
  by (simp add: find_log_def commit_props)

lemma find_log_cong: "scrape_logs a = scrape_logs b \<Longrightarrow> find_log a lid = find_log b lid"
  by (simp add: find_log_def)

lemma update_log_props:
  "jobs (update_log lid f s) = jobs s" "pending (update_log lid f s) = pending s"
  "autoflush (update_log lid f s) = autoflush s"
  by (simp_all add: update_log_def)

lemma grows_update_log: "grows s n (update_log lid f s) n"
  by (simp add: grows_def update_log_props all_links_def stored_links_def)

lemma run_scrape_shape:
  assumes lg: "find_log s lid = Some lg"
  obtains s1 r st' mids s2 lt where
    "s1 = commit now (update_log lid (\<lambda>l. l\<lparr>ScrapeLog.status := ''running''\<rparr>) s)"
    "scrape_sites now world kw loc 0 site_names
         \<lparr>db = s1, total_jobs = 0, errors = [], committed = [s1]\<rparr> = (r, st')"
    "run_scrape now world s lid site_names kw loc = s1 # mids @ [s2]"
    "list_all (\<lambda>m. scrape_logs m = scrape_logs s1) mids"
    "find_log s1 lid = Some (lg\<lparr>ScrapeLog.status := ''running''\<rparr>)"
    "find_log s2 lid = Some lt"
    "grows s 0 s2 (total_jobs st')"
    "pending s2 = []"
    "lt = (case r of
               None \<Rightarrow> lg\<lparr>ScrapeLog.status := ''completed'',
                          ScrapeLog.jobs_found := total_jobs st',
                          ScrapeLog.completed_at := Some now,
                          ScrapeLog.error_message :=
                            (if errors st' \<noteq> [] then Some (str_join ''; '' (errors st'))
                             else ScrapeLog.error_message lg)\<rparr>
             | Some e \<Rightarrow> lg\<lparr>ScrapeLog.status := ''failed'',
                            ScrapeLog.error_message := Some e,
                            ScrapeLog.completed_at := Some now\<rparr>)"
proof -
  define s1 where "s1 = commit now (update_log lid (\<lambda>l. l\<lparr>ScrapeLog.status := ''running''\<rparr>) s)"
  obtain r st' where loop: "scrape_sites now world kw loc 0 site_names
         \<lparr>db = s1, total_jobs = 0, errors = [], committed = [s1]\<rparr> = (r, st')"
    by (cases "scrape_sites now world kw loc 0 site_names
         \<lparr>db = s1, total_jobs = 0, errors = [], committed = [s1]\<rparr>")
  define fin :: "ScrapeLog \<Rightarrow> ScrapeLog" where "fin = (case r of
      None \<Rightarrow> (\<lambda>l. l\<lparr>ScrapeLog.status := ''completed'',
                          ScrapeLog.jobs_found := total_jobs st',
                          ScrapeLog.completed_at := Some now,
                          ScrapeLog.error_message :=
                            (if errors st' \<noteq> [] then Some (str_join ''; '' (errors st'))
                             else ScrapeLog.error_message l)\<rparr>)
    | Some e \<Rightarrow> (\<lambda>l. l\<lparr>ScrapeLog.status := ''failed'',
                            ScrapeLog.error_message := Some e,
                            ScrapeLog.completed_at := Some now\<rparr>))"
  define s2 where "s2 = commit now (update_log lid fin (db st'))"
  have fid: "\<And>l. ScrapeLog.id' (fin l) = ScrapeLog.id' l"
    by (simp add: fin_def split: option.splits)
  from scrape_sites_props [OF loop] obtain mids where
    l: "scrape_logs (db st') = scrape_logs s1"
    and g: "grows s1 0 (db st') (total_jobs st')"
    and c: "committed st' = [s1] @ mids" "list_all (\<lambda>m. scrape_logs m = scrape_logs s1) mids"
    by auto
  have "run_scrape now world s lid site_names kw loc = committed st' @ [s2]"
    using lg loop unfolding run_scrape_def s2_def fin_def s1_def [symmetric]
    by (simp add: Let_def split: option.splits)
  then have run: "run_scrape now world s lid site_names kw loc = s1 # mids @ [s2]"
    using c(1) by simp
  have f1: "find_log s1 lid = Some (lg\<lparr>ScrapeLog.status := ''running''\<rparr>)"
    unfolding s1_def using lg by (simp add: find_log_commit find_log_update)
  have "find_log (db st') lid = find_log s1 lid" using l by (rule find_log_cong)
  then have f2: "find_log s2 lid = Some (fin (lg\<lparr>ScrapeLog.status := ''running''\<rparr>))"
    unfolding s2_def using f1 fid by (simp add: find_log_commit find_log_update)
  have g1: "grows s 0 s1 0" unfolding s1_def
    using grows_update_log grows_commit by (blast intro: grows_trans)
  have g2: "grows (db st') (total_jobs st') s2 (total_jobs st')" unfolding s2_def
    using grows_update_log grows_commit by (blast intro: grows_trans)
  from g1 g g2 have gr: "grows s 0 s2 (total_jobs st')" by (blast intro: grows_trans)
  have p2: "pending s2 = []" unfolding s2_def by (simp add: commit_props)
  have lt: "fin (lg\<lparr>ScrapeLog.status := ''running''\<rparr>) = (case r of
               None \<Rightarrow> lg\<lparr>ScrapeLog.status := ''completed'',
                          ScrapeLog.jobs_found := total_jobs st',
                          ScrapeLog.completed_at := Some now,
                          ScrapeLog.error_message :=
                            (if errors st' \<noteq> [] then Some (str_join ''; '' (errors st'))
                             else ScrapeLog.error_message lg)\<rparr>
             | Some e \<Rightarrow> lg\<lparr>ScrapeLog.status := ''failed'',
                            ScrapeLog.error_message := Some e,
                            ScrapeLog.completed_at := Some now\<rparr>)"
    by (simp add: fin_def split: option.splits)
  from s1_def loop run c(2) f1 f2 gr p2 lt show ?thesis by (rule that)
qed

lemma fold_max_ge: "(x::nat) \<in> set xs \<Longrightarrow> x \<le> fold max xs a"
proof (induction xs arbitrary: a)
  case Nil
  then show ?case by simp
next
  case (Cons y ys)
  have m: "\<And>b. b \<le> fold max ys b"
    subgoal for b by (induction ys arbitrary: b) (auto intro: order_trans [OF max.cobounded2])
    done
  show ?case
  proof (cases "x = y")
    case True
    have "y \<le> max y a" by simp
    also have "\<dots> \<le> fold max ys (max y a)" by (rule m)
    finally show ?thesis using True by simp
  next
    case False
    with Cons.prems have "x \<in> set ys" by simp
    then show ?thesis by (simp add: Cons.IH)
  qed
qed

lemma find_fresh: "\<forall>y\<in>set xs. \<not> P y \<Longrightarrow> P x \<Longrightarrow> find P (xs @ [x]) = Some x"
  by (induction xs) auto

lemma start_scrape_creates:
  assumes "start_scrape t0 s sites_param kw loc = (Inr resp, s0)"
  shows "\<exists>lg. find_log s0 (StartResponse.log_id resp) = Some lg
       \<and> ScrapeLog.status lg = ''pending'' \<and> ScrapeLog.completed_at lg = None
       \<and> ScrapeLog.jobs_found lg = 0 \<and> ScrapeLog.error_message lg = None"
proof -
  let ?lid = "next_log_id (scrape_logs s)"
  let ?lg = "\<lparr>ScrapeLog.id' = ?lid, ScrapeLog.keyword = kw, ScrapeLog.location = loc,
       ScrapeLog.sites = str_join '','' (site_list sites_param), ScrapeLog.jobs_found = 0,
       ScrapeLog.status = ''pending'', ScrapeLog.started_at = t0, ScrapeLog.completed_at = None,
       ScrapeLog.error_message = None\<rparr>"
  from assms have r: "StartResponse.log_id resp = ?lid"
    and s0: "s0 = commit t0 (s\<lparr>scrape_logs := scrape_logs s @ [?lg]\<rparr>)"
    by (auto simp: start_scrape_def Let_def split: if_splits)
  have "\<forall>l\<in>set (scrape_logs s). ScrapeLog.id' l \<noteq> ?lid"
  proof
    fix l assume "l \<in> set (scrape_logs s)"
    then have "ScrapeLog.id' l \<in> set (map ScrapeLog.id' (scrape_logs s))" by simp
    then have "ScrapeLog.id' l \<le> fold max (map ScrapeLog.id' (scrape_logs s)) 0"
      by (rule fold_max_ge)
    then show "ScrapeLog.id' l \<noteq> ?lid" by (simp add: next_log_id_def)
  qed
  then have "find (\<lambda>l. ScrapeLog.id' l = ?lid) (scrape_logs s @ [?lg]) = Some ?lg"
    by (intro find_fresh) simp_all
  then have "find_log s0 ?lid = Some ?lg"
    unfolding s0 by (simp add: find_log_commit) (simp add: find_log_def)
  with r show ?thesis by simp
qed

lemma map_filter_const:
  "list_all (\<lambda>m. f m = Some v) ms \<Longrightarrow> List.map_filter f ms = replicate (length ms) v"
  by (induction ms) (auto simp: List.map_filter_simps)

lemma map_filter_app: "List.map_filter f (xs @ ys) = List.map_filter f xs @ List.map_filter f ys"
  by (simp add: List.map_filter_def)

lemma remdups_adj_run:
  "b \<noteq> c \<Longrightarrow> remdups_adj (b # replicate n b @ [c]) = [b, c]"
  by (induction n) auto

lemma log_history_run:
  assumes "find_log s0 lid = Some l0" and "find_log s1 lid = Some l1"
    and "list_all (\<lambda>m. scrape_logs m = scrape_logs s1) mids" and "find_log s2 lid = Some l2"
  shows "log_history lid (s0 # s1 # mids @ [s2]) = l0 # l1 # replicate (length mids) l1 @ [l2]"
proof -
  have "list_all (\<lambda>m. find_log m lid = Some l1) mids"
    using assms(2,3) by (auto simp: list_all_iff find_log_def)
  then have "List.map_filter (\<lambda>d. find_log d lid) mids = replicate (length mids) l1"
    by (rule map_filter_const)
  with assms(1,2,4) show ?thesis
    by (simp add: log_history_def List.map_filter_simps map_filter_app)
qed

section \<open>Deduplication by apply_link\<close>






















section \<open>Failing sources do not fail the run\<close>

text \<open>
  Claim C2. When no scraper's constructor or \<open>close()\<close> raises (nothing fails outside
  the per-source \<open>try\<close>), the run ends \<open>completed\<close> with \<open>completed_at\<close> set, whatever
  the scrapers' \<open>scrape\<close> calls do, and its \<open>error_message\<close> is the per-source failure
  entries joined by \<open>; \<close> when there are any. When the site list is not empty and every
  \<open>scrape\<close> raises, \<open>jobs_found\<close> is 0 and the error message holds one entry per
  source, the entry of a known source being its name, a colon and the message.
\<close>

theorem run_scrape_source_failures:
  assumes lg: "find_log s lid = Some lg"
    and nf: "\<forall>j<length site_names. init_error (world j) = None \<and> close_error (world j) = None"
  shows "\<exists>lt. find_log (final_session s (run_scrape now world s lid site_names kw loc)) lid = Some lt
    \<and> ScrapeLog.status lt = ''completed''
    \<and> ScrapeLog.completed_at lt = Some now
    \<and> (source_errors world kw loc 0 site_names \<noteq> [] \<longrightarrow>
         ScrapeLog.error_message lt = Some (str_join ''; '' (source_errors world kw loc 0 site_names)))
    \<and> (site_names \<noteq> [] \<and> (\<forall>j<length site_names. isl (scrape_outcome (world j) kw loc)) \<longrightarrow>
         ScrapeLog.jobs_found lt = 0
       \<and> ScrapeLog.error_message lt = Some (str_join ''; '' (source_errors world kw loc 0 site_names))
       \<and> length (source_errors world kw loc 0 site_names) = length site_names
       \<and> (\<forall>j<length site_names. source_errors world kw loc 0 site_names ! j =
            (if site_names ! j \<in> set SCRAPERS
             then site_names ! j @ '': '' @ projl (scrape_outcome (world j) kw loc)
             else ''Unknown site: '' @ site_names ! j)))"
proof -
  obtain s1 r st' mids s2 lt where
    s1: "s1 = commit now (update_log lid (\<lambda>l. l\<lparr>ScrapeLog.status := ''running''\<rparr>) s)"
    and loop: "scrape_sites now world kw loc 0 site_names
         \<lparr>db = s1, total_jobs = 0, errors = [], committed = [s1]\<rparr> = (r, st')"
    and run: "run_scrape now world s lid site_names kw loc = s1 # mids @ [s2]"
    and ml: "list_all (\<lambda>m. scrape_logs m = scrape_logs s1) mids"
    and f1: "find_log s1 lid = Some (lg\<lparr>ScrapeLog.status := ''running''\<rparr>)"
    and f2: "find_log s2 lid = Some lt"
    and gr: "grows s 0 s2 (total_jobs st')"
    and p2: "pending s2 = []"
    and lt: "lt = (case r of
               None \<Rightarrow> lg\<lparr>ScrapeLog.status := ''completed'',
                          ScrapeLog.jobs_found := total_jobs st',
                          ScrapeLog.completed_at := Some now,
                          ScrapeLog.error_message :=
                            (if errors st' \<noteq> [] then Some (str_join ''; '' (errors st'))
                             else ScrapeLog.error_message lg)\<rparr>
             | Some e \<Rightarrow> lg\<lparr>ScrapeLog.status := ''failed'',
                            ScrapeLog.error_message := Some e,
                            ScrapeLog.completed_at := Some now\<rparr>)"
    using lg by (rule run_scrape_shape)
  let ?st0 = "\<lparr>db = s1, total_jobs = 0, errors = [], committed = [s1]\<rparr>"
  let ?errs = "source_errors world kw loc 0 site_names"
  have fin: "final_session s (run_scrape now world s lid site_names kw loc) = s2"
    unfolding run final_session_def by simp
  from nf have nf0: "\<forall>j<length site_names. init_error (world (0 + j)) = None \<and> close_error (world (0 + j)) = None"
    by simp
  from scrape_sites_errors [OF nf0, of now kw loc ?st0] loop
  have r: "r = None" and er: "errors st' = ?errs" by simp_all
  from lt r er have lt': "lt = lg\<lparr>ScrapeLog.status := ''completed'',
                          ScrapeLog.jobs_found := total_jobs st',
                          ScrapeLog.completed_at := Some now,
                          ScrapeLog.error_message :=
                            (if ?errs \<noteq> [] then Some (str_join ''; '' ?errs)
                             else ScrapeLog.error_message lg)\<rparr>" by simp
  have 1: "ScrapeLog.status lt = ''completed''" "ScrapeLog.completed_at lt = Some now"
    "?errs \<noteq> [] \<longrightarrow> ScrapeLog.error_message lt = Some (str_join ''; '' ?errs)"
    unfolding lt' by simp_all
  have 2: "ScrapeLog.jobs_found lt = 0
       \<and> ScrapeLog.error_message lt = Some (str_join ''; '' ?errs)
       \<and> length ?errs = length site_names
       \<and> (\<forall>j<length site_names. ?errs ! j =
            (if site_names ! j \<in> set SCRAPERS
             then site_names ! j @ '': '' @ projl (scrape_outcome (world j) kw loc)
             else ''Unknown site: '' @ site_names ! j))"
    if ne: "site_names \<noteq> []" and ar: "\<forall>j<length site_names. isl (scrape_outcome (world j) kw loc)"
  proof -
    from ar have ar0: "\<forall>j<length site_names. isl (scrape_outcome (world (0 + j)) kw loc)" by simp
    from scrape_sites_all_raise [OF nf0 ar0, of now ?st0] loop
    have t: "total_jobs st' = 0" and len: "length ?errs = length site_names"
      and nth: "\<forall>j<length site_names. ?errs ! j =
            (if site_names ! j \<in> set SCRAPERS
             then site_names ! j @ '': '' @ projl (scrape_outcome (world j) kw loc)
             else ''Unknown site: '' @ site_names ! j)"
      by simp_all
    from len ne have "?errs \<noteq> []" by auto
    with 1(3) t len nth show ?thesis unfolding lt' by simp
  qed
  show ?thesis unfolding fin using f2 1 2 by blast
qed

theorem run_scrape_source_failures_witness:
  "find_log stored_session 1 \<noteq> None
   \<and> (\<exists>lt. find_log (final_session stored_session
          (run_scrape 9 failing_world stored_session 1 [''remoteok'', ''indeed''] ''python'' [])) 1 = Some lt
        \<and> ScrapeLog.status lt = ''completed'' \<and> ScrapeLog.jobs_found lt = 0
        \<and> ScrapeLog.error_message lt = Some ''remoteok: timeout; indeed: timeout'')"
proof -
  have lg: "find_log stored_session 1 =
      Some \<lparr>ScrapeLog.id' = 1, ScrapeLog.keyword = ''python'', ScrapeLog.location = [],
            ScrapeLog.sites = ''remoteok,indeed'', ScrapeLog.jobs_found = 0,
            ScrapeLog.status = ''pending'', ScrapeLog.started_at = 7,
            ScrapeLog.completed_at = None, ScrapeLog.error_message = None\<rparr>"
    by code_simp
  have nf: "\<forall>j<length [''remoteok'', ''indeed''].
      init_error (failing_world j) = None \<and> close_error (failing_world j) = None"
    by (simp add: failing_world_def)
  have ar: "[''remoteok'', ''indeed''] \<noteq> []
      \<and> (\<forall>j<length [''remoteok'', ''indeed'']. isl (scrape_outcome (failing_world j) ''python'' []))"
    by (simp add: failing_world_def)
  have se: "str_join ''; '' (source_errors failing_world ''python'' [] 0 [''remoteok'', ''indeed''])
      = ''remoteok: timeout; indeed: timeout''"
    by code_simp
  from run_scrape_source_failures [OF lg nf, of 9 "''python''" "[]"] ar
  have "\<exists>lt. find_log (final_session stored_session
          (run_scrape 9 failing_world stored_session 1 [''remoteok'', ''indeed''] ''python'' [])) 1 = Some lt
        \<and> ScrapeLog.status lt = ''completed'' \<and> ScrapeLog.jobs_found lt = 0
        \<and> ScrapeLog.error_message lt
            = Some (str_join ''; '' (source_errors failing_world ''python'' [] 0 [''remoteok'', ''indeed'']))"
    by blast
  with lg show ?thesis unfolding se by simp
qed

section \<open>The life cycle of a run record\<close>

text \<open>
  Claim C4. For a run record created by \<open>start_scrape\<close> and executed by the task it
  schedules, take the record as it is at creation and at every commit of \<open>run_scrape\<close>.
  The record exists in each of these states; its statuses, with repetitions removed,
  are \<open>pending\<close>, \<open>running\<close>, then one of \<open>completed\<close> and \<open>failed\<close>; exactly one
  state, the last, has a terminal status; and in every state \<open>completed_at\<close> is set
  exactly when the status is terminal.
\<close>

theorem run_lifecycle:
  assumes st: "start_scrape t0 s sites_param kw loc = (Inr resp, s0)"
  shows "let cs = run_scrape now world s0 (StartResponse.log_id resp) (StartResponse.sites resp)
                    (StartResponse.keyword resp) (StartResponse.location resp);
             hist = log_history (StartResponse.log_id resp) (s0 # cs)
         in length hist = Suc (length cs) \<and> 2 \<le> length cs
          \<and> (\<exists>t. remdups_adj (map ScrapeLog.status hist) = [''pending'', ''running'', t] \<and> terminal t)
          \<and> length (filter (\<lambda>l. terminal (ScrapeLog.status l)) hist) = 1
          \<and> terminal (ScrapeLog.status (last hist))
          \<and> list_all (\<lambda>l. (ScrapeLog.completed_at l \<noteq> None) = terminal (ScrapeLog.status l)) hist"
proof -
  let ?lid = "StartResponse.log_id resp"
  let ?cs = "run_scrape now world s0 ?lid (StartResponse.sites resp)
                    (StartResponse.keyword resp) (StartResponse.location resp)"
  from start_scrape_creates [OF st] obtain lg where
    f0: "find_log s0 ?lid = Some lg" and pg: "ScrapeLog.status lg = ''pending''"
    and cg: "ScrapeLog.completed_at lg = None"
    by blast
  obtain s1 r st' mids s2 lt where
    s1: "s1 = commit now (update_log ?lid (\<lambda>l. l\<lparr>ScrapeLog.status := ''running''\<rparr>) s0)"
    and loop: "scrape_sites now world (StartResponse.keyword resp) (StartResponse.location resp) 0
         (StartResponse.sites resp)
         \<lparr>db = s1, total_jobs = 0, errors = [], committed = [s1]\<rparr> = (r, st')"
    and run: "?cs = s1 # mids @ [s2]"
    and ml: "list_all (\<lambda>m. scrape_logs m = scrape_logs s1) mids"
    and f1: "find_log s1 ?lid = Some (lg\<lparr>ScrapeLog.status := ''running''\<rparr>)"
    and f2: "find_log s2 ?lid = Some lt"
    and gr: "grows s0 0 s2 (total_jobs st')"
    and p2: "pending s2 = []"
    and lt: "lt = (case r of
               None \<Rightarrow> lg\<lparr>ScrapeLog.status := ''completed'',
                          ScrapeLog.jobs_found := total_jobs st',
                          ScrapeLog.completed_at := Some now,
                          ScrapeLog.error_message :=
                            (if errors st' \<noteq> [] then Some (str_join ''; '' (errors st'))
                             else ScrapeLog.error_message lg)\<rparr>
             | Some e \<Rightarrow> lg\<lparr>ScrapeLog.status := ''failed'',
                            ScrapeLog.error_message := Some e,
                            ScrapeLog.completed_at := Some now\<rparr>)"
    using f0 by (rule run_scrape_shape)
  let ?l1 = "lg\<lparr>ScrapeLog.status := ''running''\<rparr>"
  let ?n = "length mids"
  let ?hist = "log_history ?lid (s0 # ?cs)"
  have h: "?hist = lg # ?l1 # replicate ?n ?l1 @ [lt]"
    unfolding run by (rule log_history_run [OF f0 f1 ml f2])
  have tl: "terminal (ScrapeLog.status lt)" and cl: "ScrapeLog.completed_at lt \<noteq> None"
    unfolding lt by (simp_all add: terminal_def split: option.splits)
  have nr: "ScrapeLog.status lt \<noteq> ''running''" using tl by (auto simp: terminal_def)
  have 1: "length ?hist = Suc (length ?cs)" unfolding h by (simp add: run)
  have 2: "2 \<le> length ?cs" by (simp add: run)
  have m: "map ScrapeLog.status ?hist
      = ''pending'' # ''running'' # replicate ?n ''running'' @ [ScrapeLog.status lt]"
    unfolding h by (simp add: pg)
  have "remdups_adj (map ScrapeLog.status ?hist)
      = ''pending'' # remdups_adj (''running'' # replicate ?n ''running'' @ [ScrapeLog.status lt])"
    unfolding m by simp
  also have "\<dots> = [''pending'', ''running'', ScrapeLog.status lt]"
    using nr by (simp only: remdups_adj_run [OF nr [symmetric]])
  finally have 3: "\<exists>t. remdups_adj (map ScrapeLog.status ?hist) = [''pending'', ''running'', t] \<and> terminal t"
    using tl by blast
  have 4: "length (filter (\<lambda>l. terminal (ScrapeLog.status l)) ?hist) = 1"
    unfolding h using tl pg by (simp add: terminal_def)
  have 5: "terminal (ScrapeLog.status (last ?hist))" unfolding h using tl by simp
  have 6: "list_all (\<lambda>l. (ScrapeLog.completed_at l \<noteq> None) = terminal (ScrapeLog.status l)) ?hist"
    unfolding h using tl cl pg cg by (simp add: terminal_def list_all_iff)
  from 1 2 3 4 5 6 show ?thesis unfolding Let_def by blast
qed

theorem run_lifecycle_witness:
  "fst (start_scrape 8 stored_session ''remoteok, indeed'' ''python'' [])
     = Inr \<lparr>StartResponse.message = ''Scraping started'', StartResponse.log_id = 2,
            StartResponse.sites = [''remoteok'', ''indeed''], StartResponse.keyword = ''python'',
            StartResponse.location = []\<rparr>
   \<and> map ScrapeLog.status (log_history 2
        (snd (start_scrape 8 stored_session ''remoteok, indeed'' ''python'' []) #
         run_scrape 9 sample_world (snd (start_scrape 8 stored_session ''remoteok, indeed'' ''python'' []))
           2 [''remoteok'', ''indeed''] ''python'' []))
       = [''pending'', ''running'', ''running'', ''completed'']
   \<and> (\<exists>t. remdups_adj (map ScrapeLog.status (log_history 2
        (snd (start_scrape 8 stored_session ''remoteok, indeed'' ''python'' []) #
         run_scrape 9 sample_world (snd (start_scrape 8 stored_session ''remoteok, indeed'' ''python'' []))
           2 [''remoteok'', ''indeed''] ''python'' [])))
       = [''pending'', ''running'', t] \<and> terminal t)"
proof -
  let ?resp = "\<lparr>StartResponse.message = ''Scraping started'', StartResponse.log_id = 2,
            StartResponse.sites = [''remoteok'', ''indeed''], StartResponse.keyword = ''python'',
            StartResponse.location = []\<rparr>"
  let ?s0 = "snd (start_scrape 8 stored_session ''remoteok, indeed'' ''python'' [])"
  have f: "fst (start_scrape 8 stored_session ''remoteok, indeed'' ''python'' []) = Inr ?resp"
    by code_simp
  then have st: "start_scrape 8 stored_session ''remoteok, indeed'' ''python'' [] = (Inr ?resp, ?s0)"
    by (simp add: prod_eq_iff)
  have h: "map ScrapeLog.status (log_history 2
        (?s0 # run_scrape 9 sample_world ?s0 2 [''remoteok'', ''indeed''] ''python'' []))
       = [''pending'', ''running'', ''running'', ''completed'']"
    by code_simp
  from run_lifecycle [OF st, of 9 sample_world]
  have "\<exists>t. remdups_adj (map ScrapeLog.status (log_history 2
        (?s0 # run_scrape 9 sample_world ?s0 2 [''remoteok'', ''indeed''] ''python'' [])))
       = [''pending'', ''running'', t] \<and> terminal t"
    unfolding Let_def by simp
  with f h show ?thesis by blast
qed

section \<open>Who sets the source of an offer\<close>





















end
